theory Spec2Isabelle
  imports Complex_Main "HOL-Library.AList" "HOL-Library.Log_Nat"
begin

section \<open>The TradePro market-data core: quote table, tick generator, broadcaster\<close>

text \<open>
  A shallow embedding of \<^verbatim>\<open>complete-tradepro-backend.js\<close>: the in-memory quote table
  \<^verbatim>\<open>marketData\<close>, the periodic \<^verbatim>\<open>updateMarketData\<close>, the WebSocket handlers and
  \<^verbatim>\<open>broadcastToClients\<close>, and the request handlers that look a symbol up.

  Conventions of the embedding.
  \<^item> A JavaScript number is an IEEE double. A finite double is held as the rational it
    is, and every operation and every numeric literal of the source is rounded to the
    nearest double, as the code's are; \<^verbatim>\<open>NaN\<close>, which the tick arithmetic produces
    from \<^verbatim>\<open>0 / 0\<close>, is a value of its own.
  \<^item> A \<^verbatim>\<open>Map\<close> is an association list in insertion order: \<^verbatim>\<open>get\<close> is \<open>map_of\<close>,
    \<^verbatim>\<open>set\<close> is \<open>AList.update\<close> (an existing key keeps its place, a new key goes last),
    \<^verbatim>\<open>forEach\<close> runs down the list.
  \<^item> \<^verbatim>\<open>Math.random()\<close> and \<^verbatim>\<open>new Date()\<close> are inputs: a handler takes the sequence
    \<open>rnd\<close> of the numbers \<^verbatim>\<open>Math.random()\<close> returns during its run (\<open>rnd 0\<close> first) and the
    time \<open>now\<close>.
  \<^item> Node runs every handler to completion before the next one starts, so a run of
    the server is a list of events, each applied to the state left by the one before.
\<close>

subsection \<open>Numbers\<close>

text \<open>
  The binary exponent of a positive rational \<open>x\<close>: the \<open>e\<close> with \<open>2\<^sup>e \<le> x < 2\<^sup>e\<^sup>+\<^sup>1\<close>, found
  from the bit lengths of numerator and denominator.
\<close>

definition ilog2 :: "rat \<Rightarrow> int" where
  "ilog2 x =
     (let (p, q) = quotient_of x; e = bitlen p - bitlen q
      in if 2 powi e \<le> x then e else e - 1)"

text \<open>The nearest integer, the even one of two that are equally near.\<close>

definition round_even :: "rat \<Rightarrow> int" where
  "round_even t =
     (let n = \<lfloor>t\<rfloor>; d = t - of_int n
      in if d < 1 / 2 then n else if 1 / 2 < d then n + 1 else if even n then n else n + 1)"

text \<open>
  The double nearest to a rational, ties to the even significand: 53 bits of significand,
  and no exponent below \<open>-1022\<close>, so that the doubles closest to zero lie \<open>2\<^sup>-\<^sup>1\<^sup>0\<^sup>7\<^sup>4\<close> apart.
  This is the rounding of every arithmetic operation of the code and of every numeric
  literal of its text.

  The largest double is below \<open>2\<^sup>1\<^sup>0\<^sup>2\<^sup>4\<close>; where a result would reach that magnitude the
  code gets \<^verbatim>\<open>Infinity\<close>, which is not modelled. With random numbers in \<open>[0, 1)\<close> this
  takes a stored price above \<open>2\<^sup>1\<^sup>0\<^sup>2\<^sup>3\<close>; the properties of the tick arithmetic below
  are stated for prices of magnitude up to \<open>2\<^sup>1\<^sup>0\<^sup>0\<^sup>0\<close>. The two zeros of the doubles are one
  number here: the code never divides by a zero that has a sign, and prints both as \<open>0\<close>.
\<close>

definition expo :: "rat \<Rightarrow> int" where
  "expo x = max (ilog2 \<bar>x\<bar>) (- 1022)"

definition dbl :: "rat \<Rightarrow> rat" where
  "dbl x =
     (if x = 0 then 0
      else of_int (round_even (x / 2 powi (expo x - 52))) * 2 powi (expo x - 52))"

definition is_double :: "rat \<Rightarrow> bool" where
  "is_double x \<longleftrightarrow> dbl x = x \<and> \<bar>x\<bar> < 2 ^ 1024"

datatype jsnum = Num rat | NaN

text \<open>
  \<^verbatim>\<open>x.toFixed(2)\<close>, as the number its digits denote. \<^verbatim>\<open>toFixed\<close> works on the exact value of
  the double: it sets the sign aside for a negative \<open>x\<close> and then takes the integer \<open>n\<close> for
  which \<open>n / 100\<close> is closest to the magnitude, the larger \<open>n\<close> when two are equally close.
  (From \<open>10\<^sup>2\<^sup>1\<close> on, \<^verbatim>\<open>toFixed\<close> prints the number as it is; a double of that size is an
  integer, which this rounding leaves as it is.)
\<close>

definition toFixed2 :: "rat \<Rightarrow> rat" where
  "toFixed2 x =
     (if x < 0 then - (of_int \<lfloor>(- x) * 100 + 1 / 2\<rfloor> / 100)
      else of_int \<lfloor>x * 100 + 1 / 2\<rfloor> / 100)"

text \<open>
  \<^verbatim>\<open>parseFloat(x.toFixed(2))\<close>: \<^verbatim>\<open>parseFloat\<close> reads the digits back as the nearest double.
  \<^verbatim>\<open>NaN.toFixed(2)\<close> is the string \<^verbatim>\<open>"NaN"\<close>, which \<^verbatim>\<open>parseFloat\<close> reads back as \<^verbatim>\<open>NaN\<close>.
\<close>

definition rounded2 :: "rat \<Rightarrow> rat" where
  "rounded2 x = dbl (toFixed2 x)"

fun toFixed2_num :: "jsnum \<Rightarrow> jsnum" where
  "toFixed2_num NaN = NaN"
| "toFixed2_num (Num x) = Num (rounded2 x)"

subsection \<open>Strings\<close>

text \<open>
  A string is a list of bytes. JavaScript's \<^verbatim>\<open>toUpperCase\<close> follows Unicode and is not part
  of the repository: the request handlers below take the upper-casing function as a
  parameter \<open>upper\<close>, and what is proved of them holds for every such function. The two
  functions here act on ASCII text, where the letters \<open>a\<close> to \<open>z\<close> and \<open>A\<close> to \<open>Z\<close> change case
  and every other byte stays: \<open>toUpperCase\<close> is the instance the examples use, and
  \<open>toLowerCase\<close> is applied to the constants \<^verbatim>\<open>LOW\<close>, \<^verbatim>\<open>MEDIUM\<close> and \<^verbatim>\<open>HIGH\<close> only.
\<close>

definition toUpperCase :: "string \<Rightarrow> string" where
  "toUpperCase s =
     map (\<lambda>c. let n = (of_char c :: nat) in
              if 97 \<le> n \<and> n \<le> 122 then char_of (n - 32) else c) s"

definition toLowerCase :: "string \<Rightarrow> string" where
  "toLowerCase s =
     map (\<lambda>c. let n = (of_char c :: nat) in
              if 65 \<le> n \<and> n \<le> 90 then char_of (n + 32) else c) s"

subsection \<open>Data\<close>

text \<open>
  An entry of \<^verbatim>\<open>marketIndices\<close>, and the quote stored in \<^verbatim>\<open>marketData\<close>: the entry's fields
  and a timestamp (\<^verbatim>\<open>{...index, timestamp: new Date()}\<close>). The field \<^verbatim>\<open>id\<close> is \<open>ident\<close> here.
\<close>

record index =
  ident :: nat
  symbol :: string
  name :: string
  price :: rat
  change :: rat
  changePercent :: jsnum
  volume :: int

record quote = index +
  timestamp :: nat

text \<open>A row of the options chain (\<^verbatim>\<open>id\<close> is \<open>opt_ident\<close>, \<^verbatim>\<open>timestamp\<close> is \<open>opt_timestamp\<close>).\<close>

record option_row =
  opt_ident :: nat
  underlyingSymbol :: string
  strike :: rat
  callPrice :: rat
  putPrice :: rat
  callVolume :: int
  putVolume :: int
  callOI :: int
  putOI :: int
  expiryDate :: string
  opt_timestamp :: nat

text \<open>The two messages the server sends on the socket.\<close>

datatype message =
  initialData "(string \<times> quote) list"
| marketUpdate string quote

datatype ready_state = CONNECTING | OPEN | CLOSING | CLOSED

text \<open>
  A socket of \<^verbatim>\<open>wss.clients\<close>: \<open>cid\<close> stands for the identity of the socket object, and
  \<open>sent\<close> lists the messages the server has passed to \<^verbatim>\<open>send\<close> on it, oldest first.
\<close>

record client =
  cid :: nat
  readyState :: ready_state
  sent :: "message list"

text \<open>
  The state of the process: the quote table, the options table, the registry
  \<^verbatim>\<open>wss.clients\<close> in insertion order, and the number of connections accepted so far (the
  identity of the next socket). The tables of portfolios, positions, alerts and trades are
  left out: no operation below reads or writes them.
\<close>

record state =
  marketData :: "(string \<times> quote) list"
  optionsData :: "(string \<times> option_row list) list"
  clients :: "client list"
  accepted :: nat

definition empty_state :: state where
  "empty_state = \<lparr>marketData = [], optionsData = [], clients = [], accepted = 0\<rparr>"

subsection \<open>initializeDemoData\<close>

text \<open>A decimal literal of the source is the double nearest to it.\<close>

definition bankNiftyOptions :: "(rat \<times> rat \<times> rat \<times> int \<times> int \<times> int \<times> int) list" where
  "bankNiftyOptions =
     [(47000, 215675 / 100, 4530 / 100, 1250, 890, 15000, 8900),
      (47500, 168725 / 100, 7845 / 100, 2340, 1560, 23400, 15600),
      (48000, 128590 / 100, 13425 / 100, 3450, 2890, 34500, 28900),
      (48500, 94575 / 100, 21360 / 100, 2670, 3240, 26700, 32400),
      (49000, 67830 / 100, 32780 / 100, 1890, 4120, 18900, 41200),
      (49500, 45625 / 100, 47890 / 100, 1240, 2890, 12400, 28900),
      (50000, 29875 / 100, 66745 / 100, 890, 2340, 8900, 23400)]"

definition option_of ::
  "nat \<Rightarrow> (rat \<times> rat \<times> rat \<times> int \<times> int \<times> int \<times> int) \<times> nat \<Rightarrow> option_row" where
  "option_of now = (\<lambda>((k, cp, pp, cv, pv, coi, poi), i).
     \<lparr>opt_ident = i + 1, underlyingSymbol = ''BANKNIFTY'', strike = dbl k, callPrice = dbl cp,
      putPrice = dbl pp, callVolume = cv, putVolume = pv, callOI = coi, putOI = poi,
      expiryDate = ''25 Jan 2024'', opt_timestamp = now\<rparr>)"

definition marketIndices :: "index list" where
  "marketIndices =
     [\<lparr>ident = 1, symbol = ''BANKNIFTY'', name = ''Bank Nifty'', price = dbl (4782550 / 100),
       change = dbl (24575 / 100), changePercent = Num (dbl (52 / 100)), volume = 1234567\<rparr>,
      \<lparr>ident = 2, symbol = ''NIFTY'', name = ''Nifty 50'', price = dbl (2184530 / 100),
       change = dbl (12540 / 100), changePercent = Num (dbl (58 / 100)), volume = 987654\<rparr>,
      \<lparr>ident = 3, symbol = ''SENSEX'', name = ''Sensex'', price = dbl (7245680 / 100),
       change = dbl (18920 / 100), changePercent = Num (dbl (26 / 100)), volume = 654321\<rparr>,
      \<lparr>ident = 4, symbol = ''FINNIFTY'', name = ''Fin Nifty'', price = dbl (2056790 / 100),
       change = dbl (- (4560 / 100)), changePercent = Num (dbl (- (22 / 100))), volume = 456789\<rparr>]"

definition initializeDemoData :: "nat \<Rightarrow> state \<Rightarrow> state" where
  "initializeDemoData now s =
     s\<lparr>optionsData :=
         AList.update ''BANKNIFTY''
           (map (option_of now) (zip bankNiftyOptions [0 ..< length bankNiftyOptions]))
           (optionsData s),
       marketData :=
         fold (\<lambda>index md. AList.update (symbol index) (index.extend index (quote.fields now)) md)
           marketIndices (marketData s)\<rparr>"

text \<open>The process after its start-up code has run: the tables filled, no socket yet.\<close>

definition boot :: "nat \<Rightarrow> state" where
  "boot now = initializeDemoData now empty_state"

subsection \<open>The broadcaster\<close>

text \<open>
  \<^verbatim>\<open>send\<close> of the \<^verbatim>\<open>ws\<close> library: an open socket takes the message; on a socket that is
  closing or closed the message is discarded, and nothing is raised when no callback is
  given. A socket of a server is open from the moment it exists, so the state
  \<open>CONNECTING\<close>, in which \<^verbatim>\<open>send\<close> raises, does not arise.
\<close>

definition ws_send :: "message \<Rightarrow> client \<Rightarrow> client" where
  "ws_send data c = (if readyState c = OPEN then c\<lparr>sent := sent c @ [data]\<rparr> else c)"

definition broadcastToClients :: "message \<Rightarrow> state \<Rightarrow> state" where
  "broadcastToClients data s =
     s\<lparr>clients :=
         map (\<lambda>client. if readyState client = OPEN then ws_send data client else client)
           (clients s)\<rparr>"

text \<open>
  The handler of \<^verbatim>\<open>'connection'\<close> for the socket \<open>ws\<close>: it copies the quote table into a
  fresh object, entry by entry, and sends it. Its \<^verbatim>\<open>'close'\<close> and \<^verbatim>\<open>'error'\<close> handlers only
  write to the console.
\<close>

definition snapshot :: "state \<Rightarrow> (string \<times> quote) list" where
  "snapshot s = fold (\<lambda>(symbol, data) obj. AList.update symbol data obj) (marketData s) []"

definition on_connection :: "nat \<Rightarrow> state \<Rightarrow> state" where
  "on_connection ws s =
     s\<lparr>clients :=
         map (\<lambda>c. if cid c = ws then ws_send (initialData (snapshot s)) c else c) (clients s)\<rparr>"

subsection \<open>The tick generator\<close>

definition symbols :: "string list" where
  "symbols = [''BANKNIFTY'', ''NIFTY'', ''SENSEX'', ''FINNIFTY'']"

text \<open>
  The constants of the callback's body, as functions of the stored quote \<open>current\<close> and of
  the random number \<open>r1\<close> drawn for the fluctuation; each operation is rounded to a double.
  When the stored price is zero the change is zero too, and \<^verbatim>\<open>change / current.price\<close> is
  \<^verbatim>\<open>0 / 0\<close>.
\<close>

definition fluctuation :: "rat \<Rightarrow> rat" where
  "fluctuation r1 = dbl (dbl (r1 - 1 / 2) * dbl (2 / 100))"

definition newPrice :: "quote \<Rightarrow> rat \<Rightarrow> rat" where
  "newPrice current r1 = dbl (price current * dbl (1 + fluctuation r1))"

definition newChange :: "quote \<Rightarrow> rat \<Rightarrow> rat" where
  "newChange current r1 = dbl (newPrice current r1 - price current)"

definition newChangePercent :: "quote \<Rightarrow> rat \<Rightarrow> jsnum" where
  "newChangePercent current r1 =
     (if price current = 0 then NaN
      else Num (dbl (dbl (newChange current r1 / price current) * 100)))"

text \<open>
  The object \<^verbatim>\<open>updatedData\<close>; \<open>r2\<close> is the random number drawn for the volume, after
  \<open>r1\<close>. \<^verbatim>\<open>Math.floor\<close> gives an integer below \<open>2\<^sup>1\<^sup>9\<close> for a random number in \<open>[0, 1)\<close>, and
  adding 500000 to it is exact.
\<close>

definition updatedData :: "quote \<Rightarrow> rat \<Rightarrow> rat \<Rightarrow> nat \<Rightarrow> quote" where
  "updatedData current r1 r2 now =
     current\<lparr>price := rounded2 (newPrice current r1),
             change := rounded2 (newChange current r1),
             changePercent := toFixed2_num (newChangePercent current r1),
             volume := \<lfloor>dbl (r2 * 500000)\<rfloor> + 500000,
             timestamp := now\<rparr>"

text \<open>
  One round of \<^verbatim>\<open>symbols.forEach\<close>. The first component counts the calls of
  \<^verbatim>\<open>Math.random()\<close> made so far in this run of \<^verbatim>\<open>updateMarketData\<close>.
\<close>

definition updateSymbol :: "(nat \<Rightarrow> rat) \<Rightarrow> nat \<Rightarrow> string \<Rightarrow> nat \<times> state \<Rightarrow> nat \<times> state" where
  "updateSymbol rnd now symb = (\<lambda>(n, s).
     case map_of (marketData s) symb of
       None \<Rightarrow> (n, s)
     | Some current \<Rightarrow>
         (let updated = updatedData current (rnd n) (rnd (n + 1)) now
          in (n + 2,
              broadcastToClients (marketUpdate symb updated)
                (s\<lparr>marketData := AList.update symb updated (marketData s)\<rparr>))))"

definition updateMarketData :: "(nat \<Rightarrow> rat) \<Rightarrow> nat \<Rightarrow> state \<Rightarrow> state" where
  "updateMarketData rnd now s = snd (fold (updateSymbol rnd now) symbols (0, s))"

subsection \<open>The socket library and the run of the server\<close>

text \<open>
  What the \<^verbatim>\<open>ws\<close> library does to the registry. A socket that completes its handshake is
  added to \<^verbatim>\<open>wss.clients\<close>, open, and the \<^verbatim>\<open>'connection'\<close> event is emitted in the same
  turn; a socket whose closing handshake has started is \<open>CLOSING\<close> and still registered; a
  socket that has closed is removed.
\<close>

definition ws_accept :: "state \<Rightarrow> state" where
  "ws_accept s =
     s\<lparr>clients := clients s @ [\<lparr>cid = accepted s, readyState = OPEN, sent = []\<rparr>],
       accepted := accepted s + 1\<rparr>"

definition ws_closing :: "nat \<Rightarrow> state \<Rightarrow> state" where
  "ws_closing w s =
     s\<lparr>clients := map (\<lambda>c. if cid c = w then c\<lparr>readyState := CLOSING\<rparr> else c) (clients s)\<rparr>"

definition ws_closed :: "nat \<Rightarrow> state \<Rightarrow> state" where
  "ws_closed w s = s\<lparr>clients := filter (\<lambda>c. cid c \<noteq> w) (clients s)\<rparr>"

subsection \<open>Request handlers\<close>

record analysis =
  a_symbol :: string
  signal :: "string option"
  confidence :: int
  reasoning :: string
  targetPrice :: rat
  stopLoss :: rat
  riskLevel :: string
  a_timestamp :: nat

datatype js_error = Error string | TypeError string

datatype json =
  Quotes "quote list"
| Quote quote
| Options "option_row list"
| Analysis analysis
| ErrorObject string

record response =
  status :: nat
  body :: json

text \<open>
  \<^verbatim>\<open>res.json(x)\<close> answers with status 200. The \<^verbatim>\<open>catch\<close> blocks of the three \<^verbatim>\<open>GET\<close> handlers
  below are not reached: nothing in their \<^verbatim>\<open>try\<close> blocks raises on a route parameter, which is
  always a string.
\<close>

definition get_market_indices :: "state \<Rightarrow> response" where
  "get_market_indices s = \<lparr>status = 200, body = Quotes (map snd (marketData s))\<rparr>"

definition get_market_index :: "(string \<Rightarrow> string) \<Rightarrow> state \<Rightarrow> string \<Rightarrow> response" where
  "get_market_index upper s param =
     (let symbol = upper param in
      case map_of (marketData s) symbol of
        None \<Rightarrow> \<lparr>status = 404, body = ErrorObject ''Market data not found''\<rparr>
      | Some data \<Rightarrow> \<lparr>status = 200, body = Quote data\<rparr>)"

definition get_options_chain ::
  "(string \<Rightarrow> string) \<Rightarrow> state \<Rightarrow> string \<Rightarrow> string \<Rightarrow> response" where
  "get_options_chain upper s param expiry =
     (let symbol = upper param;
          options = (case map_of (optionsData s) symbol of None \<Rightarrow> [] | Some os \<Rightarrow> os)
      in \<lparr>status = 200, body = Options options\<rparr>)"

text \<open>\<^verbatim>\<open>xs[Math.floor(r * xs.length)]\<close>; \<open>None\<close> is \<^verbatim>\<open>undefined\<close>.\<close>

definition pick :: "string list \<Rightarrow> rat \<Rightarrow> string option" where
  "pick xs r =
     (let i = \<lfloor>dbl (r * of_nat (length xs))\<rfloor>
      in if 0 \<le> i \<and> i < int (length xs) then Some (xs ! nat i) else None)"

text \<open>
  \<^verbatim>\<open>analyzeMarketWithAI\<close>, with the three random numbers it draws after its delay. The quote
  is read before the delay. \<^verbatim>\<open>riskLevel.toLowerCase()\<close> raises a \<^verbatim>\<open>TypeError\<close> on
  \<^verbatim>\<open>undefined\<close>.
\<close>

definition analyzeMarketWithAI ::
  "(string \<times> quote) list \<Rightarrow> string \<Rightarrow> rat \<Rightarrow> rat \<Rightarrow> rat \<Rightarrow> nat \<Rightarrow> js_error + analysis" where
  "analyzeMarketWithAI md symb r1 r2 r3 now =
     (case map_of md symb of
        None \<Rightarrow> Inl (Error ''Market data not found'')
      | Some marketDataPoint \<Rightarrow>
          (let signal' = pick [''BUY'', ''SELL'', ''HOLD''] r1;
               confidence' = \<lfloor>dbl (r2 * 30)\<rfloor> + 70;
               targetMultiplier =
                 (if signal' = Some ''BUY'' then dbl (102 / 100) else dbl (98 / 100));
               stopMultiplier =
                 (if signal' = Some ''BUY'' then dbl (98 / 100) else dbl (102 / 100))
           in case pick [''LOW'', ''MEDIUM'', ''HIGH''] r3 of
                None \<Rightarrow> Inl (TypeError ''Cannot read properties of undefined'')
              | Some riskLevel' \<Rightarrow>
                  Inr \<lparr>a_symbol = symb,
                       signal = signal',
                       confidence = confidence',
                       reasoning =
                         ''Based on current market analysis of '' @ symb @
                         '', the AI model detected '' @
                         (if signal' = Some ''BUY'' then ''bullish momentum with strong volume support''
                          else if signal' = Some ''SELL''
                            then ''bearish pressure with resistance at current levels''
                          else ''consolidation pattern with mixed signals'') @
                         ''. Technical indicators suggest '' @ toLowerCase riskLevel' @
                         '' risk entry point.'',
                       targetPrice = dbl (price marketDataPoint * targetMultiplier),
                       stopLoss = dbl (price marketDataPoint * stopMultiplier),
                       riskLevel = riskLevel',
                       a_timestamp = now\<rparr>))"

definition post_analyze_market ::
  "(string \<Rightarrow> string) \<Rightarrow> state \<Rightarrow> string \<Rightarrow> rat \<Rightarrow> rat \<Rightarrow> rat \<Rightarrow> nat \<Rightarrow> response" where
  "post_analyze_market upper s param r1 r2 r3 now =
     (let symbol = upper param in
      case analyzeMarketWithAI (marketData s) symbol r1 r2 r3 now of
        Inr a \<Rightarrow> \<lparr>status = 200, body = Analysis a\<rparr>
      | Inl error \<Rightarrow> \<lparr>status = 500, body = ErrorObject ''AI analysis failed''\<rparr>)"

subsection \<open>Events\<close>

datatype request = MarketIndices | MarketIndex string | OptionsChain string string

fun respond :: "(string \<Rightarrow> string) \<Rightarrow> request \<Rightarrow> state \<Rightarrow> response" where
  "respond upper MarketIndices s = get_market_indices s"
| "respond upper (MarketIndex param) s = get_market_index upper s param"
| "respond upper (OptionsChain param expiry) s = get_options_chain upper s param expiry"

text \<open>
  The events of the core: a socket connects (the library registers it and the
  \<^verbatim>\<open>'connection'\<close> handler runs), a socket starts to close, a socket has closed, the timer
  fires, a read request is answered. A read request leaves the state as it is.
\<close>

datatype event =
  Connect
| BeginClose nat
| Close nat
| Tick "nat \<Rightarrow> rat" nat
| Get request

fun step :: "event \<Rightarrow> state \<Rightarrow> state" where
  "step Connect s = on_connection (accepted s) (ws_accept s)"
| "step (BeginClose w) s = ws_closing w s"
| "step (Close w) s = ws_closed w s"
| "step (Tick rnd now) s = updateMarketData rnd now s"
| "step (Get r) s = s"

definition run :: "event list \<Rightarrow> state \<Rightarrow> state" where
  "run evs s = fold step evs s"

subsection \<open>Notions used by the properties\<close>

definition client_of :: "nat \<Rightarrow> state \<Rightarrow> client option" where
  "client_of w s = find (\<lambda>c. cid c = w) (clients s)"

fun closes :: "nat \<Rightarrow> event \<Rightarrow> bool" where
  "closes w (BeginClose v) = (v = w)"
| "closes w (Close v) = (v = w)"
| "closes w e = False"

fun is_update :: "message \<Rightarrow> bool" where
  "is_update (marketUpdate k q) = True"
| "is_update (initialData snap) = False"

text \<open>A log that starts with one snapshot of all tracked symbols and goes on with updates only.\<close>

fun snapshot_first :: "message list \<Rightarrow> bool" where
  "snapshot_first [] = False"
| "snapshot_first (initialData snap # ms) = (map fst snap = symbols \<and> list_all is_update ms)"
| "snapshot_first (marketUpdate k q # ms) = False"

text \<open>Every registered socket has such a log.\<close>

definition logs_ok :: "state \<Rightarrow> bool" where
  "logs_ok s \<longleftrightarrow> list_all (\<lambda>c. snapshot_first (sent c)) (clients s)"

text \<open>
  The messages one run of \<^verbatim>\<open>updateMarketData\<close> broadcasts, read off the quote table alone:
  \<open>n\<close> random numbers have been drawn before the round of the first symbol of the list.
\<close>

fun tick_messages ::
  "(nat \<Rightarrow> rat) \<Rightarrow> nat \<Rightarrow> string list \<Rightarrow> nat \<Rightarrow> (string \<times> quote) list \<Rightarrow> message list" where
  "tick_messages rnd now [] n md = []"
| "tick_messages rnd now (k # ks) n md =
     (case map_of md k of
        None \<Rightarrow> tick_messages rnd now ks n md
      | Some current \<Rightarrow>
          (let updated = updatedData current (rnd n) (rnd (n + 1)) now
           in marketUpdate k updated # tick_messages rnd now ks (n + 2) (AList.update k updated md)))"

text \<open>An open socket is handed the messages \<open>ms\<close>; any other socket is passed over.\<close>

definition deliver :: "message list \<Rightarrow> client \<Rightarrow> client" where
  "deliver ms c = (if readyState c = OPEN then c\<lparr>sent := sent c @ ms\<rparr> else c)"

text \<open>
  The position, in the sequence of random numbers of one tick, of the number drawn for the
  fluctuation of the symbol \<open>k\<close>: two numbers are drawn for every symbol of the list that
  comes before \<open>k\<close> and is in the table.
\<close>

definition draw_index :: "(string \<times> quote) list \<Rightarrow> string \<Rightarrow> nat" where
  "draw_index md k =
     2 * length (filter (\<lambda>x. map_of md x \<noteq> None) (takeWhile (\<lambda>x. x \<noteq> k) symbols))"

text \<open>
  The registry at a glance: of every socket its identity, its state and, for every message
  of its log in turn, whether the message is an update.
\<close>

definition shape :: "state \<Rightarrow> (nat \<times> ready_state \<times> bool list) list" where
  "shape s = map (\<lambda>c. (cid c, readyState c, map is_update (sent c))) (clients s)"

text \<open>
  The messages an event broadcasts from the state \<open>s\<close>, and those a list of events
  broadcasts, one event after the other.
\<close>

fun event_messages :: "event \<Rightarrow> state \<Rightarrow> message list" where
  "event_messages (Tick rnd now) s = tick_messages rnd now symbols 0 (marketData s)"
| "event_messages e s = []"

fun run_messages :: "event list \<Rightarrow> state \<Rightarrow> message list" where
  "run_messages [] s = []"
| "run_messages (e # evs) s = event_messages e s @ run_messages evs (step e s)"

text \<open>
  A well-formed state: the keys of the quote table are distinct, as those of a \<^verbatim>\<open>Map\<close> are,
  and every registered socket was accepted earlier.
\<close>

definition wf_state :: "state \<Rightarrow> bool" where
  "wf_state s \<longleftrightarrow>
     distinct (map fst (marketData s)) \<and> list_all (\<lambda>c. cid c < accepted s) (clients s)"

text \<open>
  Every stored price is at least 0.01; and an event whose random numbers, if it draws any,
  are doubles in \<open>[0, 1)\<close>, as those of \<^verbatim>\<open>Math.random()\<close> are.
\<close>

definition prices_positive :: "state \<Rightarrow> bool" where
  "prices_positive s \<longleftrightarrow> list_all (\<lambda>(k, q). 1 / 100 \<le> price q) (marketData s)"

fun unit_draws :: "event \<Rightarrow> bool" where
  "unit_draws (Tick rnd now) = (\<forall>n. is_double (rnd n) \<and> 0 \<le> rnd n \<and> rnd n < 1)"
| "unit_draws e = True"

subsection \<open>A run with two viewers\<close>

text \<open>
  A first socket connects, the timer fires, a second socket connects; then the timer
  fires, a third socket connects, the timer fires again and the third socket starts to
  close.
\<close>

definition two_viewers :: state where
  "two_viewers = run [Connect, Tick (\<lambda>n. 17 / 32) 1, Connect] (boot 0)"

definition later_events :: "event list" where
  "later_events = [Tick (\<lambda>n. 0) 2, Connect, Tick (\<lambda>n. 3 / 4) 3, BeginClose 2]"

subsection \<open>A state with a price of 100.00\<close>

text \<open>The state after start-up, with the stored price of \<open>NIFTY\<close> set to 100.00.\<close>

definition idx_state :: state where
  "idx_state =
     (boot 0)\<lparr>marketData :=
       map (\<lambda>(k, q). if k = ''NIFTY'' then (k, q\<lparr>price := 100\<rparr>) else (k, q))
         (marketData (boot 0))\<rparr>"

section \<open>Rounding\<close>

subsection \<open>Rounding to two decimals\<close>


lemma round_half_close:
  fixes y :: rat
  shows "\<bar>of_int \<lfloor>y + 1 / 2\<rfloor> - y\<bar> \<le> 1 / 2"
proof -
  have "of_int \<lfloor>y + 1 / 2\<rfloor> \<le> y + 1 / 2" by (rule of_int_floor_le)
  moreover have "y + 1 / 2 < of_int \<lfloor>y + 1 / 2\<rfloor> + 1" by linarith
  ultimately show ?thesis by linarith
qed

lemma toFixed2_close: "\<bar>toFixed2 x - x\<bar> \<le> 1 / 200"
proof (cases "x < 0")
  case True
  define n where "n = \<lfloor>(- x) * 100 + 1 / 2\<rfloor>"
  have "\<bar>of_int n - (- x) * 100\<bar> \<le> 1 / 2"
    unfolding n_def by (rule round_half_close)
  moreover have "toFixed2 x = - (of_int n / 100)"
    using True by (simp add: toFixed2_def n_def)
  ultimately show ?thesis by (simp add: abs_if split: if_splits)
next
  case False
  define n where "n = \<lfloor>x * 100 + 1 / 2\<rfloor>"
  have "\<bar>of_int n - x * 100\<bar> \<le> 1 / 2"
    unfolding n_def by (rule round_half_close)
  moreover have "toFixed2 x = of_int n / 100"
    using False by (simp add: toFixed2_def n_def)
  ultimately show ?thesis by (simp add: abs_if split: if_splits)
qed


subsection \<open>Rounding to the nearest integer, ties to even\<close>

lemma round_even_nearest:
  "\<bar>of_int (round_even t) - t\<bar> < 1 / 2 \<or>
   (\<bar>of_int (round_even t) - t\<bar> = 1 / 2 \<and> even (round_even t))"
proof -
  define n where "n = \<lfloor>t\<rfloor>"
  define d where "d = t - of_int n"
  have d: "0 \<le> d" "d < 1" unfolding d_def n_def by linarith+
  have t: "t = of_int n + d" by (simp add: d_def)
  consider "d < 1 / 2" | "1 / 2 < d" | "d = 1 / 2" "even n" | "d = 1 / 2" "odd n"
    by fastforce
  then show ?thesis
  proof cases
    case 1
    then have r: "round_even t = n"
      unfolding d_def n_def round_even_def Let_def by simp
    have "\<bar>of_int n - t\<bar> < 1 / 2" using 1 d by (simp add: d_def)
    then show ?thesis unfolding r by blast
  next
    case 2
    then have r: "round_even t = n + 1"
      unfolding d_def n_def round_even_def Let_def by simp
    have "\<bar>of_int (n + 1) - t\<bar> < 1 / 2" using 2 d by (simp add: d_def)
    then show ?thesis unfolding r by blast
  next
    case 3
    then have r: "round_even t = n"
      unfolding d_def n_def round_even_def Let_def by simp
    have "\<bar>of_int n - t\<bar> = 1 / 2" using 3 by (simp add: d_def)
    then show ?thesis unfolding r using 3(2) by blast
  next
    case 4
    then have r: "round_even t = n + 1"
      unfolding d_def n_def round_even_def Let_def by simp
    have "\<bar>of_int (n + 1) - t\<bar> = 1 / 2" using 4 by (simp add: d_def)
    moreover have "even (n + 1)" using 4(2) by simp
    ultimately show ?thesis unfolding r by blast
  qed
qed

lemma round_even_close: "\<bar>of_int (round_even t) - t\<bar> \<le> 1 / 2"
  using round_even_nearest[of t] by linarith

lemma round_even_unique:
  assumes "\<bar>of_int k - t\<bar> < 1 / 2 \<or> (\<bar>of_int k - t\<bar> = 1 / 2 \<and> even k)"
  shows "round_even t = k"
proof -
  let ?m = "round_even t"
  have m: "\<bar>of_int ?m - t\<bar> < 1 / 2 \<or> (\<bar>of_int ?m - t\<bar> = 1 / 2 \<and> even ?m)"
    by (rule round_even_nearest)
  have le1: "\<bar>(of_int ?m :: rat) - of_int k\<bar> \<le> 1" using assms m by linarith
  show ?thesis
  proof (cases "\<bar>of_int k - t\<bar> < 1 / 2 \<or> \<bar>of_int ?m - t\<bar> < 1 / 2")
    case True
    then have "\<bar>(of_int ?m :: rat) - of_int k\<bar> < 1" using assms m by linarith
    then have "\<bar>?m - k\<bar> < 1"
      by (metis of_int_abs of_int_diff of_int_less_1_iff)
    then show ?thesis by linarith
  next
    case False
    with assms m have ev: "even k" "even ?m" by auto
    from le1 have "\<bar>?m - k\<bar> \<le> 1"
      by (metis of_int_abs of_int_diff of_int_le_1_iff)
    moreover from ev have "even (?m - k)" by simp
    ultimately show ?thesis by presburger
  qed
qed

lemma round_even_of_int [simp]: "round_even (of_int n) = n"
  by (rule round_even_unique) simp

lemma round_even_minus: "round_even (- t) = - round_even t"
proof (rule round_even_unique)
  have "\<bar>of_int (- round_even t) - (- t)\<bar> = \<bar>of_int (round_even t) - t\<bar>"
    by (simp add: abs_if)
  then show "\<bar>of_int (- round_even t) - - t\<bar> < 1 / 2 \<or>
             (\<bar>of_int (- round_even t) - - t\<bar> = 1 / 2 \<and> even (- round_even t))"
    using round_even_nearest[of t] by simp
qed

lemma round_even_mono:
  assumes "s \<le> t"
  shows "round_even s \<le> round_even t"
proof (rule ccontr)
  assume "\<not> round_even s \<le> round_even t"
  then have gt: "round_even t + 1 \<le> round_even s" by simp
  then have g: "(of_int (round_even t) :: rat) + 1 \<le> of_int (round_even s)"
    by (metis of_int_1 of_int_add of_int_le_iff)
  have a: "\<bar>of_int (round_even s) - s\<bar> \<le> 1 / 2" "\<bar>of_int (round_even t) - t\<bar> \<le> 1 / 2"
    by (rule round_even_close)+
  from g a assms have "s = t" by linarith
  with gt show False by simp
qed

subsection \<open>The binary exponent of a positive number\<close>

lemma pow2_int: "0 \<le> b \<Longrightarrow> (2 :: rat) ^ nat b = 2 powi b"
  by (simp add: power_int_def)


lemma pow2_mono: "a \<le> b \<Longrightarrow> (2 :: rat) powi a \<le> 2 powi b"
  by (rule power_int_increasing) simp_all

lemma pow2_strict_mono: "a < b \<Longrightarrow> (2 :: rat) powi a < 2 powi b"
  by (rule power_int_strict_increasing) simp_all

lemma pow2_less_D: "(2 :: rat) powi a < 2 powi b \<Longrightarrow> a < b"
  using pow2_mono[of b a] by (cases "a < b") simp_all

lemma ilog2_bounds:
  assumes "0 < x"
  shows "2 powi (ilog2 x) \<le> x" "x < 2 powi (ilog2 x + 1)"
proof -
  obtain p q where pq: "quotient_of x = (p, q)" by (cases "quotient_of x")
  then have x: "x = of_int p / of_int q" and q: "0 < q"
    by (simp_all add: quotient_of_div quotient_of_denom_pos)
  from assms x q have p: "0 < p" by (simp add: zero_less_divide_iff)
  define e where "e = bitlen p - bitlen q"
  have bp: "0 \<le> bitlen p - 1" "0 \<le> bitlen q - 1"
    using p q bitlen_eq_zero_iff[of p] bitlen_eq_zero_iff[of q] bitlen_nonneg[of p] bitlen_nonneg[of q]
    by linarith+
  from bitlen_bounds[OF p] have "(of_int (2 ^ nat (bitlen p - 1)) :: rat) \<le> of_int p"
    "(of_int p :: rat) < of_int (2 ^ nat (bitlen p))"
    by (simp_all only: of_int_le_iff of_int_less_iff)
  then have P: "2 powi (bitlen p - 1) \<le> (of_int p :: rat)" "(of_int p :: rat) < 2 powi (bitlen p)"
    using bp(1) by (simp_all add: pow2_int[symmetric])
  from bitlen_bounds[OF q] have "(of_int (2 ^ nat (bitlen q - 1)) :: rat) \<le> of_int q"
    "(of_int q :: rat) < of_int (2 ^ nat (bitlen q))"
    by (simp_all only: of_int_le_iff of_int_less_iff)
  then have Q: "2 powi (bitlen q - 1) \<le> (of_int q :: rat)" "(of_int q :: rat) < 2 powi (bitlen q)"
    using bp(2) by (simp_all add: pow2_int[symmetric])
  have qpos: "(0 :: rat) < of_int q" using q by simp
  have "x * 2 powi (bitlen q - 1) \<le> x * of_int q"
    using Q(1) assms by simp
  also have "\<dots> = of_int p" using x qpos by simp
  also have "\<dots> < 2 powi (bitlen p)" by (rule P(2))
  finally have "x * 2 powi (bitlen q - 1) < 2 powi (e + 1) * 2 powi (bitlen q - 1)"
    by (simp add: e_def power_int_add[symmetric])
  then have up: "x < 2 powi (e + 1)" by simp
  have "(2 :: rat) powi (e - 1) * 2 powi (bitlen q) = 2 powi (bitlen p - 1)"
    by (simp add: e_def power_int_add[symmetric])
  also have "\<dots> \<le> of_int p" by (rule P(1))
  also have "\<dots> = x * of_int q" using x qpos by simp
  also have "\<dots> \<le> x * 2 powi (bitlen q)" using Q(2) assms by simp
  finally have lo: "2 powi (e - 1) \<le> x" by simp
  have il: "ilog2 x = (if 2 powi e \<le> x then e else e - 1)"
    by (simp add: ilog2_def pq e_def Let_def)
  show "2 powi (ilog2 x) \<le> x" using lo by (simp add: il)
  show "x < 2 powi (ilog2 x + 1)" using up by (auto simp: il not_le)
qed


lemma ilog2_mono:
  assumes "0 < x" "x \<le> y"
  shows "ilog2 x \<le> ilog2 y"
proof -
  have "0 < y" using assms by linarith
  from ilog2_bounds(1)[OF assms(1)] ilog2_bounds(2)[OF this] assms(2)
  have "(2 :: rat) powi (ilog2 x) < 2 powi (ilog2 y + 1)" by linarith
  then have "ilog2 x < ilog2 y + 1" by (rule pow2_less_D)
  then show ?thesis by linarith
qed

subsection \<open>Rounding to the nearest double\<close>

lemma dbl_pos:
  "0 < x \<Longrightarrow> dbl x = of_int (round_even (x / 2 powi (expo x - 52))) * 2 powi (expo x - 52)"
  by (simp add: dbl_def)

lemma dbl_zero [simp]: "dbl 0 = 0"
  by (simp add: dbl_def)

lemma expo_minus [simp]: "expo (- x) = expo x"
  by (simp add: expo_def)

lemma dbl_minus: "dbl (- x) = - dbl x"
  by (simp add: dbl_def round_even_minus)

lemma round_even_nonneg: "0 \<le> t \<Longrightarrow> 0 \<le> round_even t"
  using round_even_mono[of 0 t] round_even_of_int[of 0] by simp

lemma dbl_nonneg: "0 \<le> x \<Longrightarrow> 0 \<le> dbl x"
proof (cases "x = 0")
  case False
  assume "0 \<le> x"
  with False have "0 < x" by simp
  then have "0 \<le> x / 2 powi (expo x - 52)" by simp
  then have "0 \<le> round_even (x / 2 powi (expo x - 52))" by (rule round_even_nonneg)
  then show ?thesis unfolding dbl_pos[OF \<open>0 < x\<close>] by simp
qed simp

lemma expo_upper: "0 < x \<Longrightarrow> x < 2 powi (expo x + 1)"
proof -
  assume x: "0 < x"
  then have "x < 2 powi (ilog2 x + 1)" by (rule ilog2_bounds)
  also have "\<dots> \<le> 2 powi (expo x + 1)"
    using x by (intro pow2_mono) (simp add: expo_def)
  finally show ?thesis .
qed

lemma pow2_split: "(2 :: rat) powi (e + 1) = 2 ^ 53 * 2 powi (e - 52)"
proof -
  have "e + 1 = 53 + (e - 52)" by simp
  then have "(2 :: rat) powi (e + 1) = 2 powi (53 + (e - 52))" by (rule arg_cong)
  also have "\<dots> = 2 powi 53 * 2 powi (e - 52)" by (rule power_int_add) simp
  finally show ?thesis by simp
qed

lemma pow2_split': "(2 :: rat) powi e = 2 ^ 52 * 2 powi (e - 52)"
proof -
  have "e = 52 + (e - 52)" by simp
  then have "(2 :: rat) powi e = 2 powi (52 + (e - 52))" by (rule arg_cong)
  also have "\<dots> = 2 powi 52 * 2 powi (e - 52)" by (rule power_int_add) simp
  finally show ?thesis by simp
qed

lemma dbl_upper:
  assumes "0 < x"
  shows "dbl x \<le> 2 powi (expo x + 1)"
proof -
  define u where "u = (2 :: rat) powi (expo x - 52)"
  define N where "N = (2 :: int) ^ 53"
  have N: "(of_int N :: rat) = 2 ^ 53" by (simp add: N_def)
  have u: "0 < u" by (simp add: u_def)
  have "x < of_int N * u" using expo_upper[OF assms] unfolding N u_def by (simp only: pow2_split)
  then have "x / u \<le> of_int N" using u by (simp add: pos_divide_le_eq)
  then have "round_even (x / u) \<le> round_even (of_int N)" by (rule round_even_mono)
  then have "round_even (x / u) \<le> N" by (simp only: round_even_of_int)
  then have "(of_int (round_even (x / u)) :: rat) \<le> of_int N" by (simp only: of_int_le_iff)
  then have "of_int (round_even (x / u)) * u \<le> of_int N * u"
    using u by (intro mult_right_mono) simp_all
  then show ?thesis unfolding dbl_pos[OF assms] N u_def by (simp only: pow2_split)
qed

lemma dbl_lower:
  assumes "0 < x" "- 1022 \<le> ilog2 x"
  shows "2 powi (ilog2 x) \<le> dbl x"
proof -
  have e: "expo x = ilog2 x" using assms by (simp add: expo_def)
  define u where "u = (2 :: rat) powi (expo x - 52)"
  define N where "N = (2 :: int) ^ 52"
  have N: "(of_int N :: rat) = 2 ^ 52" by (simp add: N_def)
  have u: "0 < u" by (simp add: u_def)
  have "2 powi (expo x) \<le> x" using ilog2_bounds(1)[OF assms(1)] by (simp only: e)
  then have "of_int N * u \<le> x" unfolding N u_def by (simp only: pow2_split'[symmetric])
  then have "of_int N \<le> x / u" using u by (simp add: pos_le_divide_eq)
  then have "round_even (of_int N) \<le> round_even (x / u)" by (rule round_even_mono)
  then have "N \<le> round_even (x / u)" by (simp only: round_even_of_int)
  then have "(of_int N :: rat) \<le> of_int (round_even (x / u))" by (simp only: of_int_le_iff)
  then have "of_int N * u \<le> of_int (round_even (x / u)) * u"
    using u by (intro mult_right_mono) simp_all
  then have "2 powi (expo x) \<le> dbl x"
    unfolding dbl_pos[OF assms(1)] N u_def by (simp only: pow2_split'[symmetric])
  then show ?thesis by (simp only: e)
qed

lemma dbl_mono_pos:
  assumes "0 < x" "x \<le> y"
  shows "dbl x \<le> dbl y"
proof -
  have y: "0 < y" using assms by linarith
  have le: "expo x \<le> expo y"
    using ilog2_mono[of x y] assms by (simp add: expo_def)
  show ?thesis
  proof (cases "expo x = expo y")
    case True
    let ?u = "(2 :: rat) powi (expo y - 52)"
    have "x / ?u \<le> y / ?u" using assms(2) by (simp add: divide_right_mono)
    then have "round_even (x / ?u) \<le> round_even (y / ?u)" by (rule round_even_mono)
    then have "(of_int (round_even (x / ?u)) :: rat) * ?u \<le> of_int (round_even (y / ?u)) * ?u"
      by simp
    then show ?thesis unfolding dbl_pos[OF assms(1)] dbl_pos[OF y] True .
  next
    case False
    with le have lt: "expo x + 1 \<le> expo y" by simp
    then have "- 1022 < expo y" by (simp add: expo_def)
    then have e: "expo y = ilog2 y" "- 1022 \<le> ilog2 y" using y by (simp_all add: expo_def)
    have "dbl x \<le> 2 powi (expo x + 1)" by (rule dbl_upper[OF assms(1)])
    also have "\<dots> \<le> 2 powi (ilog2 y)" using lt e(1) by (intro pow2_mono) simp
    also have "\<dots> \<le> dbl y" by (rule dbl_lower[OF y e(2)])
    finally show ?thesis .
  qed
qed

lemma dbl_mono:
  assumes "x \<le> y"
  shows "dbl x \<le> dbl y"
proof -
  consider "0 < x" | "x \<le> 0" "0 \<le> y" | "y < 0" by linarith
  then show ?thesis
  proof cases
    case 1
    then show ?thesis using assms by (rule dbl_mono_pos)
  next
    case 2
    have "dbl x = - dbl (- x)" by (simp add: dbl_minus)
    moreover have "0 \<le> dbl (- x)" using 2(1) by (intro dbl_nonneg) simp
    moreover have "0 \<le> dbl y" using 2(2) by (rule dbl_nonneg)
    ultimately show ?thesis by linarith
  next
    case 3
    then have "dbl (- y) \<le> dbl (- x)" using assms by (intro dbl_mono_pos) simp_all
    then show ?thesis by (simp add: dbl_minus)
  qed
qed


subsection \<open>Rounding to two decimals is monotone\<close>

lemma toFixed2_mono:
  assumes "x \<le> y"
  shows "toFixed2 x \<le> toFixed2 y"
proof -
  have fm: "a \<le> b \<Longrightarrow> (of_int \<lfloor>a * 100 + 1 / 2\<rfloor> :: rat) / 100 \<le> of_int \<lfloor>b * 100 + 1 / 2\<rfloor> / 100"
    for a b :: rat
  proof -
    assume "a \<le> b"
    then have "\<lfloor>a * 100 + 1 / 2\<rfloor> \<le> \<lfloor>b * 100 + 1 / 2\<rfloor>" by (intro floor_mono) simp
    then have "(of_int \<lfloor>a * 100 + 1 / 2\<rfloor> :: rat) \<le> of_int \<lfloor>b * 100 + 1 / 2\<rfloor>"
      by (simp only: of_int_le_iff)
    then show ?thesis by (simp add: divide_right_mono)
  qed
  have nn: "0 \<le> a \<Longrightarrow> (0 :: rat) \<le> of_int \<lfloor>a * 100 + 1 / 2\<rfloor> / 100" for a :: rat
  proof -
    assume "0 \<le> a"
    then have "0 \<le> \<lfloor>a * 100 + 1 / 2\<rfloor>" by simp
    then show ?thesis by simp
  qed
  have pos: "0 \<le> a \<Longrightarrow> toFixed2 a = of_int \<lfloor>a * 100 + 1 / 2\<rfloor> / 100" for a
    by (simp add: toFixed2_def)
  have neg: "a < 0 \<Longrightarrow> toFixed2 a = - (of_int \<lfloor>(- a) * 100 + 1 / 2\<rfloor> / 100)" for a
    by (simp add: toFixed2_def)
  consider "0 \<le> x" | "x < 0" "0 \<le> y" | "y < 0" by linarith
  then show ?thesis
  proof cases
    case 1
    then have "0 \<le> y" using assms by linarith
    then show ?thesis unfolding pos[OF 1] pos[OF \<open>0 \<le> y\<close>] by (intro fm assms)
  next
    case 2
    have "0 \<le> - x" using 2(1) by simp
    from nn[OF this] nn[OF 2(2)] show ?thesis unfolding neg[OF 2(1)] pos[OF 2(2)] by linarith
  next
    case 3
    then have x: "x < 0" using assms by linarith
    from assms have "- y \<le> - x" by simp
    from fm[OF this] show ?thesis unfolding neg[OF 3] neg[OF x] by linarith
  qed
qed

lemma rounded2_mono: "x \<le> y \<Longrightarrow> rounded2 x \<le> rounded2 y"
  unfolding rounded2_def by (intro dbl_mono toFixed2_mono)





section \<open>The tick and the quote table\<close>

lemma broadcast_marketData [simp]: "marketData (broadcastToClients m s) = marketData s"
  by (simp add: broadcastToClients_def)

lemma broadcast_accepted [simp]: "accepted (broadcastToClients m s) = accepted s"
  by (simp add: broadcastToClients_def)

lemma broadcast_optionsData [simp]: "optionsData (broadcastToClients m s) = optionsData s"
  by (simp add: broadcastToClients_def)

lemma broadcast_clients: "clients (broadcastToClients m s) = map (deliver [m]) (clients s)"
  by (simp add: broadcastToClients_def deliver_def ws_send_def)

lemma deliver_deliver: "deliver ms2 (deliver ms1 c) = deliver (ms1 @ ms2) c"
  by (simp add: deliver_def)

lemma deliver_Nil [simp]: "deliver [] c = c"
  by (simp add: deliver_def)

lemma update_present_keys:
  "map_of al k = Some v \<Longrightarrow> map fst (AList.update k v' al) = map fst al"
  by (induction al) (auto split: if_splits)

lemma updateSymbol_absent:
  "map_of (marketData s) k = None \<Longrightarrow> updateSymbol rnd now k (n, s) = (n, s)"
  by (simp add: updateSymbol_def)

lemma updateSymbol_present:
  "map_of (marketData s) k = Some q \<Longrightarrow>
   updateSymbol rnd now k (n, s) =
     (n + 2,
      broadcastToClients (marketUpdate k (updatedData q (rnd n) (rnd (n + 1)) now))
        (s\<lparr>marketData := AList.update k (updatedData q (rnd n) (rnd (n + 1)) now) (marketData s)\<rparr>))"
  by (simp add: updateSymbol_def Let_def)

lemma updateSymbol_keys:
  "map fst (marketData (snd (updateSymbol rnd now k (n, s)))) = map fst (marketData s)"
  by (cases "map_of (marketData s) k")
     (simp_all add: updateSymbol_absent updateSymbol_present update_present_keys)

lemma updateSymbol_other:
  "k' \<noteq> k \<Longrightarrow>
   map_of (marketData (snd (updateSymbol rnd now k (n, s)))) k' = map_of (marketData s) k'"
  by (cases "map_of (marketData s) k")
     (simp_all add: updateSymbol_absent updateSymbol_present update_conv')

lemma updateSymbol_accepted:
  "accepted (snd (updateSymbol rnd now k (n, s))) = accepted s"
  by (cases "map_of (marketData s) k")
     (simp_all add: updateSymbol_absent updateSymbol_present)

lemma updateSymbol_optionsData:
  "optionsData (snd (updateSymbol rnd now k (n, s))) = optionsData s"
  by (cases "map_of (marketData s) k")
     (simp_all add: updateSymbol_absent updateSymbol_present)

lemma fold_updateSymbol_keys:
  "map fst (marketData (snd (fold (updateSymbol rnd now) ks p))) = map fst (marketData (snd p))"
proof (induction ks arbitrary: p)
  case Nil
  show ?case by simp
next
  case (Cons k ks)
  obtain n s where p: "p = (n, s)" by (cases p)
  show ?case using Cons[of "updateSymbol rnd now k (n, s)"] updateSymbol_keys[of rnd now k n s]
    by (simp add: p)
qed

lemma fold_updateSymbol_accepted:
  "accepted (snd (fold (updateSymbol rnd now) ks p)) = accepted (snd p)"
proof (induction ks arbitrary: p)
  case Nil
  show ?case by simp
next
  case (Cons k ks)
  obtain n s where p: "p = (n, s)" by (cases p)
  show ?case using Cons[of "updateSymbol rnd now k (n, s)"] updateSymbol_accepted[of rnd now k n s]
    by (simp add: p)
qed

lemma fold_updateSymbol_optionsData:
  "optionsData (snd (fold (updateSymbol rnd now) ks p)) = optionsData (snd p)"
proof (induction ks arbitrary: p)
  case Nil
  show ?case by simp
next
  case (Cons k ks)
  obtain n s where p: "p = (n, s)" by (cases p)
  show ?case using Cons[of "updateSymbol rnd now k (n, s)"] updateSymbol_optionsData[of rnd now k n s]
    by (simp add: p)
qed

lemma fold_updateSymbol_other:
  "k' \<notin> set ks \<Longrightarrow>
   map_of (marketData (snd (fold (updateSymbol rnd now) ks p))) k' = map_of (marketData (snd p)) k'"
proof (induction ks arbitrary: p)
  case Nil
  show ?case by simp
next
  case (Cons k ks)
  obtain n s where p: "p = (n, s)" by (cases p)
  from Cons.prems have "k' \<noteq> k" "k' \<notin> set ks" by auto
  then show ?case
    using Cons.IH[of "updateSymbol rnd now k (n, s)"] updateSymbol_other[of k' k rnd now n s]
    by (simp add: p)
qed

lemma fold_updateSymbol_lookup:
  assumes "distinct ks" "k \<in> set ks" "map_of (marketData s) k = Some q"
  shows "map_of (marketData (snd (fold (updateSymbol rnd now) ks (n, s)))) k =
         Some (updatedData q
           (rnd (n + 2 * length (filter (\<lambda>x. map_of (marketData s) x \<noteq> None)
                                   (takeWhile (\<lambda>x. x \<noteq> k) ks))))
           (rnd (n + 2 * length (filter (\<lambda>x. map_of (marketData s) x \<noteq> None)
                                   (takeWhile (\<lambda>x. x \<noteq> k) ks)) + 1))
           now)"
  using assms
proof (induction ks arbitrary: n s)
  case Nil
  then show ?case by simp
next
  case (Cons x ks)
  show ?case
  proof (cases "x = k")
    case True
    with Cons.prems have notin: "k \<notin> set ks" by simp
    have "map_of (marketData (snd (updateSymbol rnd now k (n, s)))) k =
          Some (updatedData q (rnd n) (rnd (n + 1)) now)"
      using Cons.prems(3) by (simp add: updateSymbol_present update_conv')
    then show ?thesis
      using True fold_updateSymbol_other[OF notin, of rnd now "updateSymbol rnd now k (n, s)"]
      by simp
  next
    case False
    with Cons.prems have k: "k \<in> set ks" and d: "distinct ks" by auto
    obtain n' s' where step: "updateSymbol rnd now x (n, s) = (n', s')"
      by (cases "updateSymbol rnd now x (n, s)")
    have n': "n' = n + (if map_of (marketData s) x \<noteq> None then 2 else 0)"
      using step by (cases "map_of (marketData s) x")
        (auto simp: updateSymbol_absent updateSymbol_present)
    have same: "map_of (marketData s') y \<noteq> None \<longleftrightarrow> map_of (marketData s) y \<noteq> None" for y
    proof (cases "y = x")
      case True
      show ?thesis using step unfolding True
        by (cases "map_of (marketData s) x")
           (auto simp: updateSymbol_absent updateSymbol_present update_conv')
    next
      case False
      then show ?thesis using updateSymbol_other[of y x rnd now n s] step by simp
    qed
    have q': "map_of (marketData s') k = Some q"
      using updateSymbol_other[of k x rnd now n s] False step Cons.prems(3) by simp
    have "filter (\<lambda>y. map_of (marketData s') y \<noteq> None) zs =
          filter (\<lambda>y. map_of (marketData s) y \<noteq> None) zs" for zs
      by (rule filter_cong[OF refl]) (rule same)
    then show ?thesis
      using Cons.IH[OF d k q', of n'] False step n' by (simp add: add.assoc)
  qed
qed

lemma tick_lookup:
  assumes "map_of (marketData s) k = Some q" "k \<in> set symbols"
  shows "map_of (marketData (updateMarketData rnd now s)) k =
         Some (updatedData q (rnd (draw_index (marketData s) k))
                 (rnd (draw_index (marketData s) k + 1)) now)"
proof -
  have "distinct symbols" by (simp add: symbols_def)
  from fold_updateSymbol_lookup[OF this assms(2) assms(1), of rnd now 0]
  show ?thesis by (simp add: updateMarketData_def draw_index_def)
qed

lemma tick_keys: "map fst (marketData (updateMarketData rnd now s)) = map fst (marketData s)"
  by (simp add: updateMarketData_def fold_updateSymbol_keys)

subsection \<open>The first tick after start-up, worked out\<close>

lemma boot_lookup:
  "map_of (marketData (boot 0)) ''BANKNIFTY'' =
     Some \<lparr>ident = 1, symbol = ''BANKNIFTY'', name = ''Bank Nifty'', price = dbl (4782550 / 100),
          change = dbl (24575 / 100), changePercent = Num (dbl (52 / 100)), volume = 1234567,
          timestamp = 0\<rparr>"
  "map_of (marketData (boot 0)) ''SENSEX'' =
     Some \<lparr>ident = 3, symbol = ''SENSEX'', name = ''Sensex'', price = dbl (7245680 / 100),
          change = dbl (18920 / 100), changePercent = Num (dbl (26 / 100)), volume = 654321,
          timestamp = 0\<rparr>"
  by (simp_all add: boot_def initializeDemoData_def empty_state_def marketIndices_def
      index.extend_def quote.fields_def)

lemma tracked: "''BANKNIFTY'' \<in> set symbols" "''NIFTY'' \<in> set symbols"
  "''SENSEX'' \<in> set symbols" "''FINNIFTY'' \<in> set symbols"
  by (simp_all add: symbols_def)

lemma BANKNIFTY_updated:
  "updatedData
     \<lparr>ident = 1, symbol = ''BANKNIFTY'', name = ''Bank Nifty'', price = dbl (4782550 / 100),
          change = dbl (24575 / 100), changePercent = Num (dbl (52 / 100)), volume = 1234567,
          timestamp = 0\<rparr>
     (17 / 32) (17 / 32) 1 =
   \<lparr>ident = 1, symbol = ''BANKNIFTY'', name = ''Bank Nifty'', price = dbl (4785539 / 100),
          change = dbl (2989 / 100), changePercent = Num (dbl (6 / 100)), volume = 765625,
          timestamp = 1\<rparr>"
proof -
  let ?q = "\<lparr>ident = 1, symbol = ''BANKNIFTY'', name = ''Bank Nifty'', price = dbl (4782550 / 100),
          change = dbl (24575 / 100), changePercent = Num (dbl (52 / 100)), volume = 1234567,
          timestamp = 0\<rparr>"
  have e: "rounded2 (newPrice ?q (17 / 32)) = dbl (4785539 / 100)"
    "rounded2 (newChange ?q (17 / 32)) = dbl (2989 / 100)"
    "toFixed2_num (newChangePercent ?q (17 / 32)) = Num (dbl (6 / 100))"
    "\<lfloor>dbl (17 / 32 * 500000)\<rfloor> + 500000 = 765625"
    by code_simp+
  show ?thesis unfolding updatedData_def e by simp
qed

lemma SENSEX_updated:
  "updatedData
     \<lparr>ident = 3, symbol = ''SENSEX'', name = ''Sensex'', price = dbl (7245680 / 100),
          change = dbl (18920 / 100), changePercent = Num (dbl (26 / 100)), volume = 654321,
          timestamp = 0\<rparr>
     0 0 1 =
   \<lparr>ident = 3, symbol = ''SENSEX'', name = ''Sensex'', price = dbl (7173223 / 100),
          change = dbl (- (72457 / 100)), changePercent = Num (dbl (- 1)), volume = 500000,
          timestamp = 1\<rparr>"
proof -
  let ?q = "\<lparr>ident = 3, symbol = ''SENSEX'', name = ''Sensex'', price = dbl (7245680 / 100),
          change = dbl (18920 / 100), changePercent = Num (dbl (26 / 100)), volume = 654321,
          timestamp = 0\<rparr>"
  have e: "rounded2 (newPrice ?q 0) = dbl (7173223 / 100)"
    "rounded2 (newChange ?q 0) = dbl (- (72457 / 100))"
    "toFixed2_num (newChangePercent ?q 0) = Num (dbl (- 1))"
    "\<lfloor>dbl (0 * 500000)\<rfloor> + 500000 = 500000"
    by code_simp+
  show ?thesis unfolding updatedData_def e by simp
qed

lemma first_tick_BANKNIFTY:
  "map_of (marketData (updateMarketData (\<lambda>n. 17 / 32) 1 (boot 0))) ''BANKNIFTY'' =
     Some \<lparr>ident = 1, symbol = ''BANKNIFTY'', name = ''Bank Nifty'', price = dbl (4785539 / 100),
          change = dbl (2989 / 100), changePercent = Num (dbl (6 / 100)), volume = 765625,
          timestamp = 1\<rparr>"
  using tick_lookup[OF boot_lookup(1) tracked(1), of "\<lambda>n. 17 / 32" 1]
  by (simp only: BANKNIFTY_updated)

lemma first_tick_SENSEX:
  "map_of (marketData (updateMarketData (\<lambda>n. 0) 1 (boot 0))) ''SENSEX'' =
     Some \<lparr>ident = 3, symbol = ''SENSEX'', name = ''Sensex'', price = dbl (7173223 / 100),
          change = dbl (- (72457 / 100)), changePercent = Num (dbl (- 1)), volume = 500000,
          timestamp = 1\<rparr>"
  using tick_lookup[OF boot_lookup(2) tracked(3), of "\<lambda>n. 0" 1]
  by (simp only: SENSEX_updated)

lemma boot_price_facts:
  "price \<lparr>ident = 1, symbol = ''BANKNIFTY'', name = ''Bank Nifty'', price = dbl (4782550 / 100),
          change = dbl (24575 / 100), changePercent = Num (dbl (52 / 100)), volume = 1234567,
          timestamp = 0\<rparr> \<noteq> 0"
  "\<bar>price \<lparr>ident = 1, symbol = ''BANKNIFTY'', name = ''Bank Nifty'', price = dbl (4782550 / 100),
          change = dbl (24575 / 100), changePercent = Num (dbl (52 / 100)), volume = 1234567,
          timestamp = 0\<rparr>\<bar> \<le> 2 ^ 1000"
  "0 \<le> price \<lparr>ident = 3, symbol = ''SENSEX'', name = ''Sensex'', price = dbl (7245680 / 100),
          change = dbl (18920 / 100), changePercent = Num (dbl (26 / 100)), volume = 654321,
          timestamp = 0\<rparr>"
  "price \<lparr>ident = 3, symbol = ''SENSEX'', name = ''Sensex'', price = dbl (7245680 / 100),
          change = dbl (18920 / 100), changePercent = Num (dbl (26 / 100)), volume = 654321,
          timestamp = 0\<rparr> \<le> 2 ^ 1000"
  by code_simp+


section \<open>The tick generator\<close>

lemma updatedData_fields [simp]:
  "price (updatedData q r1 r2 now) = rounded2 (newPrice q r1)"
  "change (updatedData q r1 r2 now) = rounded2 (newChange q r1)"
  "changePercent (updatedData q r1 r2 now) = toFixed2_num (newChangePercent q r1)"
  "volume (updatedData q r1 r2 now) = \<lfloor>dbl (r2 * 500000)\<rfloor> + 500000"
  "timestamp (updatedData q r1 r2 now) = now"
  "ident (updatedData q r1 r2 now) = ident q"
  "symbol (updatedData q r1 r2 now) = symbol q"
  "name (updatedData q r1 r2 now) = name q"
  by (simp_all add: updatedData_def)






subsection \<open>The fluctuation and the band of the new price\<close>

lemma newChangePercent_Num:
  "price q \<noteq> 0 \<Longrightarrow>
   newChangePercent q r = Num (dbl (dbl (newChange q r / price q) * 100))"
  by (simp add: newChangePercent_def)

lemma tick_constants:
  "dbl (- (1 / 2)) = - (1 / 2)"
  "dbl (1 / 2) = 1 / 2"
  "0 \<le> dbl (2 / 100)"
  "dbl (- (1 / 2) * dbl (2 / 100)) = - dbl (1 / 100)"
  "dbl (1 / 2 * dbl (2 / 100)) = dbl (1 / 100)"
  "dbl (1 + - dbl (1 / 100)) = dbl (99 / 100)"
  "dbl (1 + dbl (1 / 100)) = dbl (101 / 100)"
  by code_simp+

lemma fluctuation_range:
  assumes "0 \<le> r" "r < 1"
  shows "- dbl (1 / 100) \<le> fluctuation r" "fluctuation r \<le> dbl (1 / 100)"
proof -
  let ?a = "dbl (r - 1 / 2)"
  have "dbl (- (1 / 2)) \<le> ?a" using assms(1) by (intro dbl_mono) simp
  then have lo: "- (1 / 2) \<le> ?a" by (simp only: tick_constants)
  have "?a \<le> dbl (1 / 2)" using assms(2) by (intro dbl_mono) simp
  then have hi: "?a \<le> 1 / 2" by (simp only: tick_constants)
  from lo have "- (1 / 2) * dbl (2 / 100) \<le> ?a * dbl (2 / 100)"
    by (rule mult_right_mono) (rule tick_constants)
  then have "dbl (- (1 / 2) * dbl (2 / 100)) \<le> dbl (?a * dbl (2 / 100))" by (rule dbl_mono)
  then show "- dbl (1 / 100) \<le> fluctuation r"
    by (simp only: tick_constants fluctuation_def)
  from hi have "?a * dbl (2 / 100) \<le> 1 / 2 * dbl (2 / 100)"
    by (rule mult_right_mono) (rule tick_constants)
  then have "dbl (?a * dbl (2 / 100)) \<le> dbl (1 / 2 * dbl (2 / 100))" by (rule dbl_mono)
  then show "fluctuation r \<le> dbl (1 / 100)"
    by (simp only: tick_constants fluctuation_def)
qed

lemma factor_range:
  assumes "0 \<le> r" "r < 1"
  shows "dbl (99 / 100) \<le> dbl (1 + fluctuation r)" "dbl (1 + fluctuation r) \<le> dbl (101 / 100)"
proof -
  from fluctuation_range(1)[OF assms] have "1 + - dbl (1 / 100) \<le> 1 + fluctuation r" by simp
  then have "dbl (1 + - dbl (1 / 100)) \<le> dbl (1 + fluctuation r)" by (rule dbl_mono)
  then show "dbl (99 / 100) \<le> dbl (1 + fluctuation r)" by (simp only: tick_constants)
  from fluctuation_range(2)[OF assms] have "1 + fluctuation r \<le> 1 + dbl (1 / 100)" by simp
  then have "dbl (1 + fluctuation r) \<le> dbl (1 + dbl (1 / 100))" by (rule dbl_mono)
  then show "dbl (1 + fluctuation r) \<le> dbl (101 / 100)" by (simp only: tick_constants)
qed

lemma newPrice_band:
  assumes "0 \<le> r" "r < 1" "0 \<le> price q"
  shows "dbl (price q * dbl (99 / 100)) \<le> newPrice q r"
    "newPrice q r \<le> dbl (price q * dbl (101 / 100))"
proof -
  from factor_range(1)[OF assms(1,2)] assms(3)
  have "price q * dbl (99 / 100) \<le> price q * dbl (1 + fluctuation r)"
    by (rule mult_left_mono)
  then show "dbl (price q * dbl (99 / 100)) \<le> newPrice q r"
    unfolding newPrice_def by (rule dbl_mono)
  from factor_range(2)[OF assms(1,2)] assms(3)
  have "price q * dbl (1 + fluctuation r) \<le> price q * dbl (101 / 100)"
    by (rule mult_left_mono)
  then show "newPrice q r \<le> dbl (price q * dbl (101 / 100))"
    unfolding newPrice_def by (rule dbl_mono)
qed

subsection \<open>Stored prices stay positive\<close>

lemma toFixed2_lower:
  assumes "1 / 200 \<le> x"
  shows "1 / 100 \<le> toFixed2 x"
proof -
  from assms have "1 \<le> x * 100 + 1 / 2" by simp
  then have "1 \<le> \<lfloor>x * 100 + 1 / 2\<rfloor>" by (simp add: le_floor_iff)
  then have "(1 :: rat) \<le> of_int \<lfloor>x * 100 + 1 / 2\<rfloor>" by linarith
  moreover have "toFixed2 x = of_int \<lfloor>x * 100 + 1 / 2\<rfloor> / 100"
    using assms by (simp add: toFixed2_def)
  ultimately show ?thesis by simp
qed

lemma cent_constants:
  "1 / 100 \<le> dbl (1 / 100)"
  "1 / 200 \<le> dbl (1 / 100 * dbl (99 / 100))"
  "0 \<le> dbl (99 / 100)"
  by code_simp+

lemma dbl_ge_cent: "1 / 100 \<le> x \<Longrightarrow> 1 / 100 \<le> dbl x"
  using dbl_mono[of "1 / 100" x] cent_constants(1) by linarith

lemma updatedData_price_positive:
  assumes "1 / 100 \<le> price q" "0 \<le> r1" "r1 < 1"
  shows "1 / 100 \<le> price (updatedData q r1 r2 now)"
proof -
  from assms(1) have p: "0 \<le> price q" by simp
  from assms(1) have "1 / 100 * dbl (99 / 100) \<le> price q * dbl (99 / 100)"
    by (rule mult_right_mono) (rule cent_constants)
  then have "dbl (1 / 100 * dbl (99 / 100)) \<le> dbl (price q * dbl (99 / 100))"
    by (rule dbl_mono)
  with cent_constants(2) newPrice_band(1)[OF assms(2,3) p]
  have "1 / 200 \<le> newPrice q r1" by linarith
  then have "1 / 100 \<le> toFixed2 (newPrice q r1)" by (rule toFixed2_lower)
  then show ?thesis unfolding updatedData_fields rounded2_def by (rule dbl_ge_cent)
qed

lemma list_all_update:
  "list_all P al \<Longrightarrow> P (k, v) \<Longrightarrow> list_all P (AList.update k v al)"
  by (induction al) auto

lemma list_all_map_of:
  "list_all P al \<Longrightarrow> map_of al k = Some v \<Longrightarrow> P (k, v)"
  by (auto simp: list_all_iff dest: map_of_SomeD)

lemma updateSymbol_prices_positive:
  assumes "prices_positive s" "\<forall>n. 0 \<le> rnd n \<and> rnd n < 1"
  shows "prices_positive (snd (updateSymbol rnd now k (n, s)))"
proof (cases "map_of (marketData s) k")
  case None
  then show ?thesis using assms(1) by (simp add: updateSymbol_absent)
next
  case (Some q)
  from assms(1) Some have "1 / 100 \<le> price q"
    using list_all_map_of[of "\<lambda>(k, q). 1 / 100 \<le> price q" "marketData s" k q]
    by (simp add: prices_positive_def)
  moreover have "0 \<le> rnd n" "rnd n < 1" using assms(2) by simp_all
  ultimately have "1 / 100 \<le> price (updatedData q (rnd n) (rnd (n + 1)) now)"
    by (rule updatedData_price_positive)
  then show ?thesis
    using assms(1) Some
    by (simp add: updateSymbol_present prices_positive_def list_all_update)
qed

lemma fold_updateSymbol_prices_positive:
  assumes "\<forall>n. 0 \<le> rnd n \<and> rnd n < 1"
  shows "prices_positive (snd p) \<Longrightarrow>
         prices_positive (snd (fold (updateSymbol rnd now) ks p))"
proof (induction ks arbitrary: p)
  case Nil
  then show ?case by simp
next
  case (Cons k ks)
  obtain n s where p: "p = (n, s)" by (cases p)
  with Cons.prems have "prices_positive s" by simp
  from updateSymbol_prices_positive[OF this assms, of now k n]
  show ?case using Cons.IH[of "updateSymbol rnd now k (n, s)"] by (simp add: p)
qed

lemma step_prices_positive:
  assumes "prices_positive s" "unit_draws e"
  shows "prices_positive (step e s)"
proof (cases e)
  case (Tick rnd now)
  with assms(2) have "\<forall>n. 0 \<le> rnd n \<and> rnd n < 1" by simp
  from fold_updateSymbol_prices_positive[OF this, of "(0, s)" now symbols] assms(1)
  show ?thesis by (simp add: Tick updateMarketData_def)
qed (use assms(1) in \<open>simp_all add: prices_positive_def on_connection_def ws_accept_def
       ws_closing_def ws_closed_def\<close>)

lemma boot_prices_positive: "prices_positive (boot now)"
proof -
  have "1 / 100 \<le> dbl (4782550 / 100)" "1 / 100 \<le> dbl (2184530 / 100)"
    "1 / 100 \<le> dbl (7245680 / 100)" "1 / 100 \<le> dbl (2056790 / 100)"
    by (rule dbl_ge_cent, simp)+
  then show ?thesis
    unfolding prices_positive_def boot_def initializeDemoData_def empty_state_def
      marketIndices_def
    by (simp add: index.extend_def)
qed

text \<open>
  In every run of the server in which \<^verbatim>\<open>Math.random()\<close> returns doubles in \<open>[0, 1)\<close>, every
  stored price is at least 0.01: a stored price is never zero, and the percentage a tick
  stores is always a number.
\<close>

lemma run_prices_positive:
  "list_all unit_draws evs \<Longrightarrow> prices_positive (run evs (boot now))"
proof -
  have "prices_positive s \<Longrightarrow> list_all unit_draws evs \<Longrightarrow> prices_positive (run evs s)" for s
    unfolding run_def
    by (induction evs arbitrary: s) (simp_all add: step_prices_positive)
  from this[OF boot_prices_positive] show "list_all unit_draws evs \<Longrightarrow> ?thesis" .
qed

lemma run_price_nonzero:
  assumes "list_all unit_draws evs" "map_of (marketData (run evs (boot now))) k = Some q"
  shows "price q \<noteq> 0" "0 \<le> price q"
proof -
  from run_prices_positive[OF assms(1), of now] assms(2)
  have "1 / 100 \<le> price q"
    using list_all_map_of[of "\<lambda>(k, q). 1 / 100 \<le> price q" "marketData (run evs (boot now))" k q]
    by (simp add: prices_positive_def)
  then show "price q \<noteq> 0" "0 \<le> price q" by simp_all
qed

subsection \<open>Rounding of the stored numbers\<close>



text \<open>
  C2, as the code has it. In every tick, for every tracked symbol of the table whose stored
  price is not zero (and of magnitude up to \<open>2\<^sup>1\<^sup>0\<^sup>0\<^sup>0\<close>), with \<open>f\<close> the fluctuation factor
  computed from the random number \<open>r\<close> drawn for the symbol and \<open>P = price(t-1) * (1 + f)\<close>
  the new price before rounding, in double arithmetic: the stored price is \<open>P\<close> rounded to
  two decimals; the stored change is the
  double \<open>C = P - price(t-1)\<close> rounded to two decimals; the stored percentage is the double
  \<open>Q = C / price(t-1) * 100\<close> rounded to two decimals; all three come from the same random
  number, and each is read from a numeral within 0.005 of the number it rounds. The change
  and the percentage are computed from the unrounded \<open>P\<close> and \<open>C\<close>, not from the stored price
  and the stored change.
\<close>

theorem C2_change_and_percent:
  assumes "map_of (marketData s) k = Some q"
    and "k \<in> set symbols"
    and "price q \<noteq> 0"
    and "\<bar>price q\<bar> \<le> 2 ^ 1000"
  shows "\<exists>q' r P C Q.
           map_of (marketData (updateMarketData rnd now s)) k = Some q' \<and>
           r = rnd (draw_index (marketData s) k) \<and>
           P = dbl (price q * dbl (1 + fluctuation r)) \<and>
           C = dbl (P - price q) \<and>
           Q = dbl (dbl (C / price q) * 100) \<and>
           price q' = dbl (toFixed2 P) \<and>
           change q' = dbl (toFixed2 C) \<and>
           changePercent q' = Num (dbl (toFixed2 Q)) \<and>
           \<bar>toFixed2 P - P\<bar> \<le> 1 / 200 \<and>
           \<bar>toFixed2 C - C\<bar> \<le> 1 / 200 \<and>
           \<bar>toFixed2 Q - Q\<bar> \<le> 1 / 200"
proof -
  let ?r = "rnd (draw_index (marketData s) k)"
  let ?q' = "updatedData q ?r (rnd (draw_index (marketData s) k + 1)) now"
  let ?P = "dbl (price q * dbl (1 + fluctuation ?r))"
  let ?C = "dbl (?P - price q)"
  let ?Q = "dbl (dbl (?C / price q) * 100)"
  have look: "map_of (marketData (updateMarketData rnd now s)) k = Some ?q'"
    by (rule tick_lookup[OF assms(1,2)])
  have p: "price ?q' = dbl (toFixed2 ?P)"
    by (simp add: rounded2_def newPrice_def)
  have c: "change ?q' = dbl (toFixed2 ?C)"
    by (simp add: rounded2_def newChange_def newPrice_def)
  have pc: "changePercent ?q' = Num (dbl (toFixed2 ?Q))"
    using assms(3) by (simp add: newChangePercent_Num rounded2_def newChange_def newPrice_def)
  have d: "\<bar>toFixed2 ?P - ?P\<bar> \<le> 1 / 200" "\<bar>toFixed2 ?C - ?C\<bar> \<le> 1 / 200"
    "\<bar>toFixed2 ?Q - ?Q\<bar> \<le> 1 / 200"
    by (rule toFixed2_close)+
  from look p c pc d show ?thesis by blast
qed

theorem C2_change_and_percent_witness:
  "map_of (marketData (boot 0)) ''BANKNIFTY'' =
     Some \<lparr>ident = 1, symbol = ''BANKNIFTY'', name = ''Bank Nifty'', price = dbl (4782550 / 100),
          change = dbl (24575 / 100), changePercent = Num (dbl (52 / 100)), volume = 1234567,
          timestamp = 0\<rparr> \<and>
   ''BANKNIFTY'' \<in> set symbols \<and>
   map_of (marketData (updateMarketData (\<lambda>n. 17 / 32) 1 (boot 0))) ''BANKNIFTY'' =
     Some \<lparr>ident = 1, symbol = ''BANKNIFTY'', name = ''Bank Nifty'', price = dbl (4785539 / 100),
          change = dbl (2989 / 100), changePercent = Num (dbl (6 / 100)), volume = 765625,
          timestamp = 1\<rparr> \<and>
   (\<exists>q' P C Q.
      map_of (marketData (updateMarketData (\<lambda>n. 17 / 32) 1 (boot 0))) ''BANKNIFTY'' = Some q' \<and>
      P = dbl (dbl (4782550 / 100) * dbl (1 + fluctuation (17 / 32))) \<and>
      C = dbl (P - dbl (4782550 / 100)) \<and>
      Q = dbl (dbl (C / dbl (4782550 / 100)) * 100) \<and>
      price q' = dbl (toFixed2 P) \<and> change q' = dbl (toFixed2 C) \<and>
      changePercent q' = Num (dbl (toFixed2 Q)))"
proof -
  let ?q = "\<lparr>ident = 1, symbol = ''BANKNIFTY'', name = ''Bank Nifty'', price = dbl (4782550 / 100),
          change = dbl (24575 / 100), changePercent = Num (dbl (52 / 100)), volume = 1234567,
          timestamp = 0\<rparr>"
  have pq: "price ?q = dbl (4782550 / 100)" by simp
  from C2_change_and_percent[OF boot_lookup(1) tracked(1) boot_price_facts(1,2),
      of "\<lambda>n. 17 / 32" 1]
  have "\<exists>q' P C Q.
      map_of (marketData (updateMarketData (\<lambda>n. 17 / 32) 1 (boot 0))) ''BANKNIFTY'' = Some q' \<and>
      P = dbl (dbl (4782550 / 100) * dbl (1 + fluctuation (17 / 32))) \<and>
      C = dbl (P - dbl (4782550 / 100)) \<and>
      Q = dbl (dbl (C / dbl (4782550 / 100)) * 100) \<and>
      price q' = dbl (toFixed2 P) \<and> change q' = dbl (toFixed2 C) \<and>
      changePercent q' = Num (dbl (toFixed2 Q))"
    unfolding pq by blast
  with boot_lookup(1) tracked(1) first_tick_BANKNIFTY show ?thesis by blast
qed

text \<open>
  The claim C2 as the specification words it fails on the code: after the first tick with
  \<^verbatim>\<open>Math.random()\<close> returning 0.53125, the quote stored for \<open>BANKNIFTY\<close> has the change 29.89
  and the percentage 0.06, while \<open>29.89 / 47825.50 * 100\<close> is more than 0.062, in exact and
  in double arithmetic.
\<close>

theorem C2_counterexample:
  "map_of (marketData (boot 0)) ''BANKNIFTY'' =
     Some \<lparr>ident = 1, symbol = ''BANKNIFTY'', name = ''Bank Nifty'', price = dbl (4782550 / 100),
          change = dbl (24575 / 100), changePercent = Num (dbl (52 / 100)), volume = 1234567,
          timestamp = 0\<rparr> \<and>
   map_of (marketData (updateMarketData (\<lambda>n. 17 / 32) 1 (boot 0))) ''BANKNIFTY'' =
     Some \<lparr>ident = 1, symbol = ''BANKNIFTY'', name = ''Bank Nifty'', price = dbl (4785539 / 100),
          change = dbl (2989 / 100), changePercent = Num (dbl (6 / 100)), volume = 765625,
          timestamp = 1\<rparr> \<and>
   dbl (6 / 100) \<noteq> dbl (2989 / 100) / dbl (4782550 / 100) * 100 \<and>
   \<bar>dbl (6 / 100) - dbl (2989 / 100) / dbl (4782550 / 100) * 100\<bar> > 2 / 1000 \<and>
   \<bar>dbl (6 / 100) - dbl (dbl (dbl (2989 / 100) / dbl (4782550 / 100)) * 100)\<bar> > 2 / 1000"
proof -
  have "dbl (6 / 100) \<noteq> dbl (2989 / 100) / dbl (4782550 / 100) * 100"
    "\<bar>dbl (6 / 100) - dbl (2989 / 100) / dbl (4782550 / 100) * 100\<bar> > 2 / 1000"
    "\<bar>dbl (6 / 100) - dbl (dbl (dbl (2989 / 100) / dbl (4782550 / 100)) * 100)\<bar> > 2 / 1000"
    by code_simp+
  with boot_lookup(1) first_tick_BANKNIFTY show ?thesis by blast
qed

text \<open>
  C3, as the code has it. In every tick, for every tracked symbol of the table with a stored
  price that is not negative (and up to \<open>2\<^sup>1\<^sup>0\<^sup>0\<^sup>0\<close>), when \<^verbatim>\<open>Math.random()\<close> returns numbers
  in \<open>[0, 1)\<close>: the fluctuation factor \<open>f\<close> lies between the doubles \<open>-0.01\<close> and \<open>0.01\<close>;
  the new price before rounding is \<open>P = oldPrice * (1 + f)\<close> in double arithmetic and lies
  between the doubles \<open>oldPrice * 0.99\<close> and \<open>oldPrice * 1.01\<close>; the stored price is \<open>P\<close>
  rounded to two decimals, read from a numeral within 0.005 of \<open>P\<close>, and so lies between
  \<open>oldPrice * 0.99\<close> and \<open>oldPrice * 1.01\<close> rounded to two decimals.
\<close>

theorem C3_price_band:
  assumes "map_of (marketData s) k = Some q"
    and "k \<in> set symbols"
    and "\<forall>n. 0 \<le> rnd n \<and> rnd n < 1"
    and "0 \<le> price q"
    and "price q \<le> 2 ^ 1000"
  shows "\<exists>q' f P.
           map_of (marketData (updateMarketData rnd now s)) k = Some q' \<and>
           f = fluctuation (rnd (draw_index (marketData s) k)) \<and>
           - dbl (1 / 100) \<le> f \<and> f \<le> dbl (1 / 100) \<and>
           P = dbl (price q * dbl (1 + f)) \<and>
           dbl (price q * dbl (99 / 100)) \<le> P \<and>
           P \<le> dbl (price q * dbl (101 / 100)) \<and>
           price q' = dbl (toFixed2 P) \<and>
           \<bar>toFixed2 P - P\<bar> \<le> 1 / 200 \<and>
           dbl (toFixed2 (dbl (price q * dbl (99 / 100)))) \<le> price q' \<and>
           price q' \<le> dbl (toFixed2 (dbl (price q * dbl (101 / 100))))"
proof -
  let ?r = "rnd (draw_index (marketData s) k)"
  let ?f = "fluctuation ?r"
  let ?q' = "updatedData q ?r (rnd (draw_index (marketData s) k + 1)) now"
  let ?P = "dbl (price q * dbl (1 + ?f))"
  have look: "map_of (marketData (updateMarketData rnd now s)) k = Some ?q'"
    by (rule tick_lookup[OF assms(1,2)])
  have r: "0 \<le> ?r" "?r < 1" using assms(3) by simp_all
  note f = fluctuation_range[OF r]
  have P: "newPrice q ?r = ?P" by (simp add: newPrice_def)
  note band = newPrice_band[OF r assms(4), unfolded P]
  have p: "price ?q' = dbl (toFixed2 ?P)"
    by (simp add: rounded2_def newPrice_def)
  have d: "\<bar>toFixed2 ?P - ?P\<bar> \<le> 1 / 200" by (rule toFixed2_close)
  have lo: "dbl (toFixed2 (dbl (price q * dbl (99 / 100)))) \<le> price ?q'"
    unfolding p by (intro dbl_mono toFixed2_mono band)
  have hi: "price ?q' \<le> dbl (toFixed2 (dbl (price q * dbl (101 / 100))))"
    unfolding p by (intro dbl_mono toFixed2_mono band)
  from look f band p d lo hi show ?thesis by blast
qed

theorem C3_price_band_witness:
  "map_of (marketData (boot 0)) ''SENSEX'' =
     Some \<lparr>ident = 3, symbol = ''SENSEX'', name = ''Sensex'', price = dbl (7245680 / 100),
          change = dbl (18920 / 100), changePercent = Num (dbl (26 / 100)), volume = 654321,
          timestamp = 0\<rparr> \<and>
   ''SENSEX'' \<in> set symbols \<and>
   (\<forall>n. 0 \<le> (\<lambda>n. 0 :: rat) n \<and> (\<lambda>n. 0 :: rat) n < 1) \<and>
   map_of (marketData (updateMarketData (\<lambda>n. 0) 1 (boot 0))) ''SENSEX'' =
     Some \<lparr>ident = 3, symbol = ''SENSEX'', name = ''Sensex'', price = dbl (7173223 / 100),
          change = dbl (- (72457 / 100)), changePercent = Num (dbl (- 1)), volume = 500000,
          timestamp = 1\<rparr> \<and>
   (\<exists>q' P.
      map_of (marketData (updateMarketData (\<lambda>n. 0) 1 (boot 0))) ''SENSEX'' = Some q' \<and>
      P = dbl (dbl (7245680 / 100) * dbl (1 + fluctuation 0)) \<and>
      dbl (dbl (7245680 / 100) * dbl (99 / 100)) \<le> P \<and>
      P \<le> dbl (dbl (7245680 / 100) * dbl (101 / 100)) \<and>
      price q' = dbl (toFixed2 P) \<and>
      dbl (toFixed2 (dbl (dbl (7245680 / 100) * dbl (99 / 100)))) \<le> price q' \<and>
      price q' \<le> dbl (toFixed2 (dbl (dbl (7245680 / 100) * dbl (101 / 100)))))"
proof -
  let ?q = "\<lparr>ident = 3, symbol = ''SENSEX'', name = ''Sensex'', price = dbl (7245680 / 100),
          change = dbl (18920 / 100), changePercent = Num (dbl (26 / 100)), volume = 654321,
          timestamp = 0\<rparr>"
  have pq: "price ?q = dbl (7245680 / 100)" by simp
  have h3: "\<forall>n. 0 \<le> (\<lambda>n. 0 :: rat) n \<and> (\<lambda>n. 0 :: rat) n < 1" by simp
  from C3_price_band[OF boot_lookup(2) tracked(3) h3 boot_price_facts(3,4), of 1]
  have "\<exists>q' P.
      map_of (marketData (updateMarketData (\<lambda>n. 0) 1 (boot 0))) ''SENSEX'' = Some q' \<and>
      P = dbl (dbl (7245680 / 100) * dbl (1 + fluctuation 0)) \<and>
      dbl (dbl (7245680 / 100) * dbl (99 / 100)) \<le> P \<and>
      P \<le> dbl (dbl (7245680 / 100) * dbl (101 / 100)) \<and>
      price q' = dbl (toFixed2 P) \<and>
      dbl (toFixed2 (dbl (dbl (7245680 / 100) * dbl (99 / 100)))) \<le> price q' \<and>
      price q' \<le> dbl (toFixed2 (dbl (dbl (7245680 / 100) * dbl (101 / 100))))"
    unfolding pq by blast
  with boot_lookup(2) tracked(3) h3 first_tick_SENSEX show ?thesis by blast
qed

text \<open>
  The claim C3 as the specification words it fails on the code: after the first tick with
  \<^verbatim>\<open>Math.random()\<close> returning 0, the price stored for \<open>SENSEX\<close> is 71732.23, below
  \<open>72456.80 * 0.99 = 71732.232\<close>, in exact and in double arithmetic.
\<close>

theorem C3_counterexample:
  "map_of (marketData (boot 0)) ''SENSEX'' =
     Some \<lparr>ident = 3, symbol = ''SENSEX'', name = ''Sensex'', price = dbl (7245680 / 100),
          change = dbl (18920 / 100), changePercent = Num (dbl (26 / 100)), volume = 654321,
          timestamp = 0\<rparr> \<and>
   fluctuation 0 = - dbl (1 / 100) \<and>
   map_of (marketData (updateMarketData (\<lambda>n. 0) 1 (boot 0))) ''SENSEX'' =
     Some \<lparr>ident = 3, symbol = ''SENSEX'', name = ''Sensex'', price = dbl (7173223 / 100),
          change = dbl (- (72457 / 100)), changePercent = Num (dbl (- 1)), volume = 500000,
          timestamp = 1\<rparr> \<and>
   dbl (7173223 / 100) < dbl (7245680 / 100) * (99 / 100) \<and>
   dbl (7173223 / 100) < dbl (dbl (7245680 / 100) * dbl (99 / 100))"
proof -
  have "fluctuation 0 = - dbl (1 / 100)"
    "dbl (7173223 / 100) < dbl (7245680 / 100) * (99 / 100)"
    "dbl (7173223 / 100) < dbl (dbl (7245680 / 100) * dbl (99 / 100))"
    by code_simp+
  with boot_lookup(2) first_tick_SENSEX show ?thesis by blast
qed

section \<open>The broadcaster\<close>

lemma deliver_readyState [simp]: "readyState (deliver ms c) = readyState c"
  by (simp add: deliver_def)

lemma deliver_cid [simp]: "cid (deliver ms c) = cid c"
  by (simp add: deliver_def)

lemma map_deliver_Nil [simp]: "map (deliver []) cs = cs"
  by (induction cs) simp_all

lemma map_deliver_deliver:
  "map (deliver ms2) (map (deliver ms1) cs) = map (deliver (ms1 @ ms2)) cs"
  by (simp add: deliver_deliver)

lemma updateSymbol_clients:
  "clients (snd (updateSymbol rnd now k (n, s))) =
     map (deliver (tick_messages rnd now [k] n (marketData s))) (clients s)"
  by (cases "map_of (marketData s) k")
     (simp_all add: updateSymbol_absent updateSymbol_present broadcast_clients Let_def)

lemma fold_updateSymbol_clients:
  "clients (snd (fold (updateSymbol rnd now) ks (n, s))) =
     map (deliver (tick_messages rnd now ks n (marketData s))) (clients s)"
proof (induction ks arbitrary: n s)
  case Nil
  show ?case by simp
next
  case (Cons k ks)
  show ?case
  proof (cases "map_of (marketData s) k")
    case None
    then show ?thesis using Cons[of n s] by (simp add: updateSymbol_absent)
  next
    case (Some q)
    let ?u = "updatedData q (rnd n) (rnd (n + 1)) now"
    let ?s1 = "broadcastToClients (marketUpdate k ?u)
                 (s\<lparr>marketData := AList.update k ?u (marketData s)\<rparr>)"
    have "clients (snd (fold (updateSymbol rnd now) ks (n + 2, ?s1))) =
          map (deliver (tick_messages rnd now ks (n + 2) (marketData ?s1))) (clients ?s1)"
      by (rule Cons)
    then show ?thesis using Some
      by (simp add: updateSymbol_present broadcast_clients Let_def comp_def deliver_deliver)
  qed
qed

lemma tick_clients:
  "clients (updateMarketData rnd now s) =
     map (deliver (tick_messages rnd now symbols 0 (marketData s))) (clients s)"
  by (simp add: updateMarketData_def fold_updateSymbol_clients)

lemma tick_accepted [simp]: "accepted (updateMarketData rnd now s) = accepted s"
  by (simp add: updateMarketData_def fold_updateSymbol_accepted)

lemma tick_optionsData [simp]: "optionsData (updateMarketData rnd now s) = optionsData s"
  by (simp add: updateMarketData_def fold_updateSymbol_optionsData)

lemma tick_messages_updates: "list_all is_update (tick_messages rnd now ks n md)"
  by (induction ks arbitrary: n md) (simp_all add: Let_def split: option.splits)

lemma updateSymbol_clients_indep:
  "\<exists>cs'. updateSymbol rnd now k (n, s\<lparr>clients := cs\<rparr>) =
     (fst (updateSymbol rnd now k (n, s)), (snd (updateSymbol rnd now k (n, s)))\<lparr>clients := cs'\<rparr>)"
proof (cases "map_of (marketData s) k")
  case None
  then have "updateSymbol rnd now k (n, s\<lparr>clients := cs\<rparr>) =
     (fst (updateSymbol rnd now k (n, s)), (snd (updateSymbol rnd now k (n, s)))\<lparr>clients := cs\<rparr>)"
    by (simp add: updateSymbol_absent)
  then show ?thesis by blast
next
  case (Some q)
  then have "updateSymbol rnd now k (n, s\<lparr>clients := cs\<rparr>) =
     (fst (updateSymbol rnd now k (n, s)),
      (snd (updateSymbol rnd now k (n, s)))
        \<lparr>clients := map (deliver [marketUpdate k (updatedData q (rnd n) (rnd (n + 1)) now)]) cs\<rparr>)"
    by (simp add: updateSymbol_present broadcastToClients_def deliver_def ws_send_def)
  then show ?thesis by blast
qed

lemma fold_updateSymbol_clients_indep:
  "\<exists>cs'. fold (updateSymbol rnd now) ks (n, s\<lparr>clients := cs\<rparr>) =
     (fst (fold (updateSymbol rnd now) ks (n, s)),
      (snd (fold (updateSymbol rnd now) ks (n, s)))\<lparr>clients := cs'\<rparr>)"
proof (induction ks arbitrary: n s cs)
  case Nil
  show ?case by (rule exI[of _ cs]) simp
next
  case (Cons k ks)
  obtain n1 s1 where u: "updateSymbol rnd now k (n, s) = (n1, s1)"
    by (cases "updateSymbol rnd now k (n, s)")
  obtain cs1 where "updateSymbol rnd now k (n, s\<lparr>clients := cs\<rparr>) = (n1, s1\<lparr>clients := cs1\<rparr>)"
    using updateSymbol_clients_indep[where rnd = rnd and now = now and k = k and n = n and s = s and cs = cs] u by auto
  then show ?case using Cons[where n = n1 and s = s1 and cs = cs1] u by simp
qed

lemma tick_marketData_clients:
  "marketData (updateMarketData rnd now (s\<lparr>clients := cs\<rparr>)) =
   marketData (updateMarketData rnd now s)"
proof -
  obtain cs' where "fold (updateSymbol rnd now) symbols (0, s\<lparr>clients := cs\<rparr>) =
     (fst (fold (updateSymbol rnd now) symbols (0, s)),
      (snd (fold (updateSymbol rnd now) symbols (0, s)))\<lparr>clients := cs'\<rparr>)"
    using fold_updateSymbol_clients_indep by blast
  then show ?thesis by (simp add: updateMarketData_def)
qed

section \<open>The key set of the quote table\<close>

lemma boot_keys: "map fst (marketData (boot now)) = symbols"
  by (simp add: boot_def initializeDemoData_def empty_state_def marketIndices_def symbols_def)

lemma step_keys: "map fst (marketData (step e s)) = map fst (marketData s)"
  by (cases e)
     (simp_all add: on_connection_def ws_accept_def ws_closing_def ws_closed_def tick_keys)

lemma run_keys: "map fst (marketData (run evs s)) = map fst (marketData s)"
  unfolding run_def by (induction evs arbitrary: s) (simp_all add: step_keys)

text \<open>
  C7. After the start-up code has run, the keys of the quote table are \<open>BANKNIFTY\<close>,
  \<open>NIFTY\<close>, \<open>SENSEX\<close> and \<open>FINNIFTY\<close>, each once; every event (a connection, the start or
  the end of a close, a tick, a read request) leaves the keys of the table as they are,
  from any state; so the keys are these four after every run of the server.
\<close>

theorem C7_static_key_set:
  "map fst (marketData (boot now)) = [''BANKNIFTY'', ''NIFTY'', ''SENSEX'', ''FINNIFTY''] \<and>
   map fst (marketData (step e s)) = map fst (marketData s) \<and>
   map fst (marketData (run evs (boot now))) = [''BANKNIFTY'', ''NIFTY'', ''SENSEX'', ''FINNIFTY''] \<and>
   set (map fst (marketData (run evs (boot now)))) =
     {''BANKNIFTY'', ''NIFTY'', ''SENSEX'', ''FINNIFTY''} \<and>
   distinct (map fst (marketData (run evs (boot now))))"
proof -
  have b: "map fst (marketData (boot now)) = [''BANKNIFTY'', ''NIFTY'', ''SENSEX'', ''FINNIFTY'']"
    using boot_keys[of now] by (simp add: symbols_def)
  have r: "map fst (marketData (run evs (boot now))) =
           [''BANKNIFTY'', ''NIFTY'', ''SENSEX'', ''FINNIFTY'']"
    using run_keys[of evs "boot now"] b by simp
  show ?thesis
    unfolding r using b step_keys[of e s] by simp
qed

theorem C7_static_key_set_witness:
  "map fst (marketData (run [Connect, Tick (\<lambda>n. 17 / 32) 1, Get (MarketIndex ''nifty''),
      BeginClose 0, Tick (\<lambda>n. 0) 2, Close 0] (boot 0))) =
     [''BANKNIFTY'', ''NIFTY'', ''SENSEX'', ''FINNIFTY'']"
  using C7_static_key_set[of 0 Connect "boot 0"
      "[Connect, Tick (\<lambda>n. 17 / 32) 1, Get (MarketIndex ''nifty''),
        BeginClose 0, Tick (\<lambda>n. 0) 2, Close 0]"]
  by blast

section \<open>Connections\<close>

lemma update_absent_append:
  "k \<notin> fst ` set al \<Longrightarrow> AList.update k v al = al @ [(k, v)]"
  by (induction al) auto

lemma fold_update_distinct:
  "distinct (map fst (acc @ md)) \<Longrightarrow>
   fold (\<lambda>(k, v) obj. AList.update k v obj) md acc = acc @ md"
proof (induction md arbitrary: acc)
  case Nil
  show ?case by simp
next
  case (Cons kv md)
  obtain k v where kv: "kv = (k, v)" by (cases kv)
  from Cons.prems have "k \<notin> fst ` set acc" by (auto simp: kv)
  then have "AList.update k v acc = acc @ [(k, v)]" by (rule update_absent_append)
  moreover from Cons.prems have "distinct (map fst ((acc @ [(k, v)]) @ md))" by (simp add: kv)
  ultimately show ?case using Cons.IH[of "acc @ [(k, v)]"] by (simp add: kv)
qed

lemma snapshot_eq: "distinct (map fst (marketData s)) \<Longrightarrow> snapshot s = marketData s"
  using fold_update_distinct[of "[]" "marketData s"] by (simp add: snapshot_def)

lemma map_unchanged:
  "list_all (\<lambda>c. cid c < n) cs \<Longrightarrow> map (\<lambda>c. if cid c = n then f c else c) cs = cs"
  by (induction cs) auto

lemma connect_clients:
  assumes "list_all (\<lambda>c. cid c < accepted s) (clients s)"
  shows "clients (step Connect s) =
         clients s @ [\<lparr>cid = accepted s, readyState = OPEN, sent = [initialData (snapshot s)]\<rparr>]"
  using map_unchanged[OF assms]
  by (simp add: on_connection_def ws_accept_def ws_send_def snapshot_def)

lemma connect_accepted [simp]: "accepted (step Connect s) = accepted s + 1"
  by (simp add: on_connection_def ws_accept_def)

lemma list_all_mono_less:
  "list_all (\<lambda>c. cid c < n) cs \<Longrightarrow> list_all (\<lambda>c. cid c < Suc n) cs"
  by (induction cs) auto

lemma step_wf: "wf_state s \<Longrightarrow> wf_state (step e s)"
proof (cases e)
  case Connect
  assume wf: "wf_state s"
  then have b: "list_all (\<lambda>c. cid c < accepted s) (clients s)" by (simp add: wf_state_def)
  have "distinct (map fst (marketData (step Connect s)))"
    using wf step_keys[of Connect s] by (simp add: wf_state_def)
  moreover have "list_all (\<lambda>c. cid c < accepted (step Connect s)) (clients (step Connect s))"
    unfolding connect_clients[OF b] connect_accepted
    using list_all_mono_less[OF b] by simp
  ultimately show ?thesis unfolding Connect wf_state_def by blast
next
  case (BeginClose w)
  assume "wf_state s"
  then show ?thesis
    by (auto simp: BeginClose wf_state_def ws_closing_def list_all_iff)
next
  case (Close w)
  assume "wf_state s"
  then show ?thesis
    by (auto simp: Close wf_state_def ws_closed_def list_all_iff)
next
  case (Tick rnd now)
  assume "wf_state s"
  then show ?thesis
    by (simp add: Tick wf_state_def tick_keys tick_clients list_all_iff)
next
  case (Get r)
  assume "wf_state s"
  then show ?thesis by (simp add: Get)
qed

lemma run_wf: "wf_state s \<Longrightarrow> wf_state (run evs s)"
  unfolding run_def by (induction evs arbitrary: s) (simp_all add: step_wf)

lemma boot_wf: "wf_state (boot now)"
  using boot_keys[of now]
  by (simp add: wf_state_def symbols_def) (simp add: boot_def initializeDemoData_def empty_state_def)

lemma snapshot_first_append:
  "snapshot_first xs \<Longrightarrow> list_all is_update ms \<Longrightarrow> snapshot_first (xs @ ms)"
  by (induction xs rule: snapshot_first.induct) simp_all

lemma deliver_snapshot_first:
  "snapshot_first (sent c) \<Longrightarrow> list_all is_update ms \<Longrightarrow> snapshot_first (sent (deliver ms c))"
  by (simp add: deliver_def snapshot_first_append)

lemma step_logs_ok:
  assumes "wf_state s" "map fst (marketData s) = symbols" "logs_ok s"
  shows "logs_ok (step e s)"
proof (cases e)
  case Connect
  from assms(1) have b: "list_all (\<lambda>c. cid c < accepted s) (clients s)"
    and d: "distinct (map fst (marketData s))" by (simp_all add: wf_state_def)
  show ?thesis
    unfolding Connect logs_ok_def connect_clients[OF b]
    using assms(2,3) by (simp add: logs_ok_def snapshot_eq[OF d])
next
  case (BeginClose w)
  then show ?thesis using assms(3) by (auto simp: logs_ok_def ws_closing_def list_all_iff)
next
  case (Close w)
  then show ?thesis using assms(3) by (auto simp: logs_ok_def ws_closed_def list_all_iff)
next
  case (Tick rnd now)
  then show ?thesis using assms(3)
    by (auto simp: logs_ok_def tick_clients list_all_iff
          intro!: deliver_snapshot_first tick_messages_updates)
next
  case (Get r)
  then show ?thesis using assms(3) by simp
qed

lemma run_logs_ok:
  "wf_state s \<Longrightarrow> map fst (marketData s) = symbols \<Longrightarrow> logs_ok s \<Longrightarrow> logs_ok (run evs s)"
  unfolding run_def
  by (induction evs arbitrary: s) (simp_all add: step_wf step_keys step_logs_ok)

lemma boot_logs_ok: "logs_ok (boot now)"
  by (simp add: logs_ok_def boot_def initializeDemoData_def empty_state_def)

section \<open>The registry along a run\<close>

lemma run_snoc: "run (evs @ [e]) s = step e (run evs s)"
  by (simp add: run_def)

lemma run_boot_wf: "wf_state (run evs (boot now))"
  by (rule run_wf[OF boot_wf])

lemma run_boot_keys: "map fst (marketData (run evs (boot now))) = symbols"
  by (simp add: run_keys boot_keys)

lemma tick_messages_kinds_gen:
  "\<forall>k\<in>set ks. map_of md k \<noteq> None \<Longrightarrow>
   map is_update (tick_messages rnd now ks n md) = replicate (length ks) True"
proof (induction ks arbitrary: n md)
  case Nil
  show ?case by simp
next
  case (Cons k ks)
  from Cons.prems obtain q where q: "map_of md k = Some q" by auto
  let ?u = "updatedData q (rnd n) (rnd (n + 1)) now"
  have "\<forall>k'\<in>set ks. map_of (AList.update k ?u md) k' \<noteq> None"
    using Cons.prems by (simp add: update_conv')
  from Cons.IH[OF this] show ?case using q by (simp add: Let_def)
qed

lemma tick_messages_kinds:
  assumes "map fst md = symbols"
  shows "map is_update (tick_messages rnd now symbols n md) = [True, True, True, True]"
proof -
  have "fst ` set md = set symbols" using assms by (metis set_map)
  then have "\<forall>k\<in>set symbols. map_of md k \<noteq> None"
    by (simp add: map_of_eq_None_iff)
  from tick_messages_kinds_gen[OF this, of rnd now n] show ?thesis
    by (simp add: symbols_def)
qed

lemma length_tick_messages:
  assumes "map fst md = symbols"
  shows "length (tick_messages rnd now symbols n md) = 4"
  using arg_cong[OF tick_messages_kinds[OF assms, of rnd now n], of length] by simp

lemma shape_boot: "shape (boot now) = []" "accepted (boot now) = 0"
  by (simp_all add: shape_def boot_def initializeDemoData_def empty_state_def)

lemma shape_connect:
  assumes "wf_state s"
  shows "shape (step Connect s) = shape s @ [(accepted s, OPEN, [False])]"
proof -
  from assms have b: "list_all (\<lambda>c. cid c < accepted s) (clients s)"
    by (simp add: wf_state_def)
  show ?thesis unfolding shape_def connect_clients[OF b] by simp
qed

lemma shape_begin:
  "shape (step (BeginClose w) s) =
     map (\<lambda>(i, r, l). (i, if i = w then CLOSING else r, l)) (shape s)"
  by (simp add: shape_def ws_closing_def comp_def)

lemma shape_close:
  "shape (step (Close w) s) = filter (\<lambda>(i, r, l). i \<noteq> w) (shape s)"
  by (simp add: shape_def ws_closed_def filter_map comp_def)

lemma shape_tick:
  assumes "map fst (marketData s) = symbols"
  shows "shape (updateMarketData rnd now s) =
     map (\<lambda>(i, r, l). (i, r, if r = OPEN then l @ [True, True, True, True] else l)) (shape s)"
  by (simp add: shape_def tick_clients comp_def deliver_def tick_messages_kinds[OF assms])

lemma run_connect:
  "shape (run (evs @ [Connect]) (boot now)) =
     shape (run evs (boot now)) @ [(accepted (run evs (boot now)), OPEN, [False])]"
  "accepted (run (evs @ [Connect]) (boot now)) = accepted (run evs (boot now)) + 1"
  unfolding run_snoc by (rule shape_connect[OF run_boot_wf], rule connect_accepted)

lemma run_begin:
  "shape (run (evs @ [BeginClose w]) (boot now)) =
     map (\<lambda>(i, r, l). (i, if i = w then CLOSING else r, l)) (shape (run evs (boot now)))"
  "accepted (run (evs @ [BeginClose w]) (boot now)) = accepted (run evs (boot now))"
  unfolding run_snoc by (rule shape_begin, simp add: ws_closing_def)

lemma run_close:
  "shape (run (evs @ [Close w]) (boot now)) =
     filter (\<lambda>(i, r, l). i \<noteq> w) (shape (run evs (boot now)))"
  "accepted (run (evs @ [Close w]) (boot now)) = accepted (run evs (boot now))"
  unfolding run_snoc by (rule shape_close, simp add: ws_closed_def)

lemma run_tick:
  "shape (run (evs @ [Tick rnd t]) (boot now)) =
     map (\<lambda>(i, r, l). (i, r, if r = OPEN then l @ [True, True, True, True] else l))
       (shape (run evs (boot now)))"
  "accepted (run (evs @ [Tick rnd t]) (boot now)) = accepted (run evs (boot now))"
  unfolding run_snoc step.simps by (rule shape_tick[OF run_boot_keys], rule tick_accepted)

lemma shape_cid: "map cid (clients s) = map fst (shape s)"
  by (simp add: shape_def comp_def)

lemma shape_readyState: "map readyState (clients s) = map (\<lambda>(i, r, l). r) (shape s)"
  by (simp add: shape_def comp_def)

lemma shape_length: "map (\<lambda>c. length (sent c)) (clients s) = map (\<lambda>(i, r, l). length l) (shape s)"
  by (simp add: shape_def comp_def)

lemma shape_kinds: "map (\<lambda>c. map is_update (sent c)) (clients s) = map (\<lambda>(i, r, l). l) (shape s)"
  by (simp add: shape_def comp_def)

lemma shape_client_of:
  assumes "find (\<lambda>(i, r, l). i = a) (shape s) = Some (i, r, l)"
  shows "\<exists>c. client_of a s = Some c \<and> readyState c = r"
proof -
  have "find (\<lambda>(i, r, l). i = a) (map (\<lambda>c. (cid c, readyState c, map is_update (sent c))) cs) =
        map_option (\<lambda>c. (cid c, readyState c, map is_update (sent c)))
          (find (\<lambda>c. cid c = a) cs)" for cs
    by (induction cs) simp_all
  then have "find (\<lambda>(i, r, l). i = a) (shape s) =
        map_option (\<lambda>c. (cid c, readyState c, map is_update (sent c)))
          (find (\<lambda>c. cid c = a) (clients s))"
    unfolding shape_def .
  with assms show ?thesis by (auto simp: client_of_def)
qed

text \<open>The registry in the runs of the worked examples.\<close>

lemma registry_closing:
  "shape (run [Connect, Connect, BeginClose 0] (boot 0)) =
     [(0, CLOSING, [False]), (1, OPEN, [False])]"
proof -
  have a0: "shape (run [] (boot 0)) = []" "accepted (run [] (boot 0)) = 0"
    by (simp_all add: run_def shape_boot)
  have a1: "shape (run [Connect] (boot 0)) = [(0, OPEN, [False])]"
    "accepted (run [Connect] (boot 0)) = 1"
    using run_connect[of "[]" 0] a0 by simp_all
  have a2: "shape (run [Connect, Connect] (boot 0)) = [(0, OPEN, [False]), (1, OPEN, [False])]"
    "accepted (run [Connect, Connect] (boot 0)) = 2"
    using run_connect[of "[Connect]" 0] a1 by simp_all
  show ?thesis using run_begin[of "[Connect, Connect]" 0 0] a2 by simp
qed

lemma registry_closing_tick:
  "shape (updateMarketData rnd now (run [Connect, Connect, BeginClose 0] (boot 0))) =
     [(0, CLOSING, [False]), (1, OPEN, [False, True, True, True, True])]"
  by (simp add: shape_tick[OF run_boot_keys] registry_closing)

lemma registry_two_ticks:
  "shape (run [Connect, Tick r1 1, Connect, Tick r2 2] (boot 0)) =
     [(0, OPEN, [False, True, True, True, True, True, True, True, True]),
      (1, OPEN, [False, True, True, True, True])]"
proof -
  have a0: "shape (run [] (boot 0)) = []" "accepted (run [] (boot 0)) = 0"
    by (simp_all add: run_def shape_boot)
  have a1: "shape (run [Connect] (boot 0)) = [(0, OPEN, [False])]"
    "accepted (run [Connect] (boot 0)) = 1"
    using run_connect[of "[]" 0] a0 by simp_all
  have a2: "shape (run [Connect, Tick r1 1] (boot 0)) = [(0, OPEN, [False, True, True, True, True])]"
    "accepted (run [Connect, Tick r1 1] (boot 0)) = 1"
    using run_tick[of "[Connect]" r1 1 0] a1 by simp_all
  have a3: "shape (run [Connect, Tick r1 1, Connect] (boot 0)) =
      [(0, OPEN, [False, True, True, True, True]), (1, OPEN, [False])]"
    "accepted (run [Connect, Tick r1 1, Connect] (boot 0)) = 2"
    using run_connect[of "[Connect, Tick r1 1]" 0] a2 by simp_all
  show ?thesis using run_tick[of "[Connect, Tick r1 1, Connect]" r2 2 0] a3 by simp
qed

lemma registry_two_viewers:
  "shape two_viewers = [(0, OPEN, [False, True, True, True, True]), (1, OPEN, [False])]"
proof -
  have a0: "shape (run [] (boot 0)) = []" "accepted (run [] (boot 0)) = 0"
    by (simp_all add: run_def shape_boot)
  have a1: "shape (run [Connect] (boot 0)) = [(0, OPEN, [False])]"
    "accepted (run [Connect] (boot 0)) = 1"
    using run_connect[of "[]" 0] a0 by simp_all
  have a2: "shape (run [Connect, Tick (\<lambda>n. 17 / 32) 1] (boot 0)) =
      [(0, OPEN, [False, True, True, True, True])]"
    "accepted (run [Connect, Tick (\<lambda>n. 17 / 32) 1] (boot 0)) = 1"
    using run_tick[of "[Connect]" "\<lambda>n. 17 / 32" 1 0] a1 by simp_all
  show ?thesis unfolding two_viewers_def
    using run_connect[of "[Connect, Tick (\<lambda>n. 17 / 32) 1]" 0] a2 by simp
qed

lemma messages_later_events: "length (run_messages later_events two_viewers) = 8"
proof -
  have k: "map fst (marketData two_viewers) = symbols"
    unfolding two_viewers_def by (rule run_boot_keys)
  have k2: "map fst (marketData (step Connect (step (Tick (\<lambda>n. 0) 2) two_viewers))) = symbols"
    unfolding step_keys by (rule k)
  show ?thesis
    unfolding later_events_def run_messages.simps event_messages.simps
    by (simp only: length_append length_tick_messages[OF k] length_tick_messages[OF k2]
          list.size)
qed

text \<open>
  The claim C5 as the specification words it fails on the code: a socket that is closing
  when the timer fires is still in the registry after the tick. Two sockets connect, the
  first starts to close, the timer fires: both are registered before and after.
\<close>

theorem C5_counterexample:
  "map cid (clients (run [Connect, Connect, BeginClose 0] (boot 0))) = [0, 1] \<and>
   map readyState (clients (run [Connect, Connect, BeginClose 0] (boot 0))) = [CLOSING, OPEN] \<and>
   map cid (clients (updateMarketData (\<lambda>n. 17 / 32) 1
      (run [Connect, Connect, BeginClose 0] (boot 0)))) = [0, 1] \<and>
   map readyState (clients (updateMarketData (\<lambda>n. 17 / 32) 1
      (run [Connect, Connect, BeginClose 0] (boot 0)))) = [CLOSING, OPEN] \<and>
   map (\<lambda>c. length (sent c)) (clients (updateMarketData (\<lambda>n. 17 / 32) 1
      (run [Connect, Connect, BeginClose 0] (boot 0)))) = [1, 5]"
  unfolding shape_cid shape_readyState shape_length registry_closing registry_closing_tick
  by simp

text \<open>
  C5, as the code has it. \<^verbatim>\<open>broadcastToClients\<close> never changes the registry: after a tick
  the same sockets are registered, in the same states. A socket that is not open is passed
  over, no send is attempted on it and it stays registered; every open socket is handed
  the same messages, those of all symbols updated by the tick, in the same order. The quote
  table the tick leaves does not depend on the registry.
\<close>

theorem C5_fanout_passes_over_closed:
  "clients (updateMarketData rnd now s) =
     map (deliver (tick_messages rnd now symbols 0 (marketData s))) (clients s) \<and>
   map cid (clients (updateMarketData rnd now s)) = map cid (clients s) \<and>
   map readyState (clients (updateMarketData rnd now s)) = map readyState (clients s) \<and>
   marketData (updateMarketData rnd now (s\<lparr>clients := cs\<rparr>)) =
     marketData (updateMarketData rnd now s)"
  by (simp add: tick_clients tick_marketData_clients comp_def)

theorem C5_fanout_passes_over_closed_witness:
  "clients (updateMarketData (\<lambda>n. 17 / 32) 1 (run [Connect, Connect, BeginClose 0] (boot 0))) =
     map (deliver (tick_messages (\<lambda>n. 17 / 32) 1 symbols 0
                     (marketData (run [Connect, Connect, BeginClose 0] (boot 0)))))
       (clients (run [Connect, Connect, BeginClose 0] (boot 0))) \<and>
   map cid (clients (updateMarketData (\<lambda>n. 17 / 32) 1
      (run [Connect, Connect, BeginClose 0] (boot 0)))) =
     map cid (clients (run [Connect, Connect, BeginClose 0] (boot 0))) \<and>
   map readyState (clients (run [Connect, Connect, BeginClose 0] (boot 0))) = [CLOSING, OPEN] \<and>
   length (tick_messages (\<lambda>n. 17 / 32) 1 symbols 0
             (marketData (run [Connect, Connect, BeginClose 0] (boot 0)))) = 4"
proof -
  have "map readyState (clients (run [Connect, Connect, BeginClose 0] (boot 0))) = [CLOSING, OPEN]"
    unfolding shape_readyState registry_closing by simp
  moreover have "length (tick_messages (\<lambda>n. 17 / 32) 1 symbols 0
             (marketData (run [Connect, Connect, BeginClose 0] (boot 0)))) = 4"
    by (rule length_tick_messages[OF run_boot_keys])
  ultimately show ?thesis
    using C5_fanout_passes_over_closed[of "\<lambda>n. 17 / 32" 1
        "run [Connect, Connect, BeginClose 0] (boot 0)"]
    by blast
qed

text \<open>
  C1. At every moment of every run of the server, the log of every registered socket is one
  \<^verbatim>\<open>initialData\<close> message holding all four tracked symbols, followed by \<^verbatim>\<open>marketUpdate\<close>
  messages only: exactly one snapshot, and no update before it. A socket that connects is
  registered with a log that holds just the snapshot, and the snapshot is the quote table
  as it is at that moment.
\<close>

theorem C1_snapshot_before_updates:
  "list_all (\<lambda>c. snapshot_first (sent c)) (clients (run evs (boot now))) \<and>
   clients (step Connect (run evs (boot now))) =
     clients (run evs (boot now)) @
       [\<lparr>cid = accepted (run evs (boot now)), readyState = OPEN,
         sent = [initialData (marketData (run evs (boot now)))]\<rparr>] \<and>
   map fst (marketData (run evs (boot now))) = symbols"
proof -
  let ?s = "run evs (boot now)"
  have wf: "wf_state ?s" by (rule run_wf[OF boot_wf])
  have keys: "map fst (marketData ?s) = symbols" by (simp add: run_keys boot_keys)
  have "logs_ok ?s"
    by (rule run_logs_ok[OF boot_wf boot_keys boot_logs_ok])
  then have logs: "list_all (\<lambda>c. snapshot_first (sent c)) (clients ?s)"
    by (simp add: logs_ok_def)
  from wf have b: "list_all (\<lambda>c. cid c < accepted ?s) (clients ?s)"
    and d: "distinct (map fst (marketData ?s))" by (simp_all add: wf_state_def)
  from connect_clients[OF b] snapshot_eq[OF d] logs keys show ?thesis by simp
qed

theorem C1_snapshot_before_updates_witness:
  "list_all (\<lambda>c. snapshot_first (sent c))
     (clients (run [Connect, Tick (\<lambda>n. 17 / 32) 1, Connect, Tick (\<lambda>n. 0) 2] (boot 0))) \<and>
   map (\<lambda>c. map is_update (sent c))
     (clients (run [Connect, Tick (\<lambda>n. 17 / 32) 1, Connect, Tick (\<lambda>n. 0) 2] (boot 0))) =
     [[False, True, True, True, True, True, True, True, True], [False, True, True, True, True]]"
proof -
  have "map (\<lambda>c. map is_update (sent c))
     (clients (run [Connect, Tick (\<lambda>n. 17 / 32) 1, Connect, Tick (\<lambda>n. 0) 2] (boot 0))) =
     [[False, True, True, True, True, True, True, True, True], [False, True, True, True, True]]"
    unfolding shape_kinds registry_two_ticks by simp
  then show ?thesis
    using C1_snapshot_before_updates[of "[Connect, Tick (\<lambda>n. 17 / 32) 1, Connect, Tick (\<lambda>n. 0) 2]" 0]
    by blast
qed

section \<open>Two viewers\<close>

lemma find_map_cid:
  "(\<And>c. cid (f c) = cid c) \<Longrightarrow>
   find (\<lambda>c. cid c = a) (map f cs) = map_option f (find (\<lambda>c. cid c = a) cs)"
  by (induction cs) simp_all

lemma find_filter_other:
  "w \<noteq> a \<Longrightarrow> find (\<lambda>c. cid c = a) (filter (\<lambda>c. cid c \<noteq> w) cs) = find (\<lambda>c. cid c = a) cs"
  by (induction cs) auto

lemma find_append_Some:
  "find P xs = Some x \<Longrightarrow> find P (xs @ ys) = Some x"
  by (induction xs) (auto split: if_splits)

lemma client_of_cid: "client_of a s = Some c \<Longrightarrow> cid c = a"
  by (auto simp: client_of_def find_Some_iff)

lemma step_client:
  assumes "wf_state s" "client_of a s = Some c" "readyState c = OPEN" "\<not> closes a e"
  shows "client_of a (step e s) = Some (c\<lparr>sent := sent c @ event_messages e s\<rparr>)"
proof (cases e)
  case Connect
  from assms(1) have b: "list_all (\<lambda>c. cid c < accepted s) (clients s)"
    by (simp add: wf_state_def)
  show ?thesis
    unfolding Connect client_of_def connect_clients[OF b]
    using assms(2) by (simp add: client_of_def find_append_Some)
next
  case (BeginClose w)
  with assms(4) have "w \<noteq> a" by simp
  have "find (\<lambda>c. cid c = a) (map (\<lambda>c. if cid c = w then c\<lparr>readyState := CLOSING\<rparr> else c) (clients s))
        = map_option (\<lambda>c. if cid c = w then c\<lparr>readyState := CLOSING\<rparr> else c)
            (find (\<lambda>c. cid c = a) (clients s))"
    by (rule find_map_cid) simp
  then show ?thesis
    using assms(2) client_of_cid[OF assms(2)] \<open>w \<noteq> a\<close>
    by (simp add: BeginClose client_of_def ws_closing_def)
next
  case (Close w)
  with assms(4) have "w \<noteq> a" by simp
  then show ?thesis
    using assms(2) by (simp add: Close client_of_def ws_closed_def find_filter_other)
next
  case (Tick rnd now)
  have "find (\<lambda>c. cid c = a)
          (map (deliver (tick_messages rnd now symbols 0 (marketData s))) (clients s))
        = map_option (deliver (tick_messages rnd now symbols 0 (marketData s)))
            (find (\<lambda>c. cid c = a) (clients s))"
    by (rule find_map_cid) simp
  then show ?thesis
    using assms(2,3) by (simp add: Tick client_of_def tick_clients deliver_def)
next
  case (Get r)
  then show ?thesis using assms(2) by simp
qed

lemma run_client:
  assumes "wf_state s" "client_of a s = Some c" "readyState c = OPEN"
    "list_all (\<lambda>e. \<not> closes a e) evs"
  shows "client_of a (run evs s) = Some (c\<lparr>sent := sent c @ run_messages evs s\<rparr>)"
  using assms
proof (induction evs arbitrary: s c)
  case Nil
  then show ?case by (simp add: run_def)
next
  case (Cons e evs)
  from Cons.prems have ne: "\<not> closes a e" and rest: "list_all (\<lambda>e. \<not> closes a e) evs"
    by simp_all
  let ?c1 = "c\<lparr>sent := sent c @ event_messages e s\<rparr>"
  have c1: "client_of a (step e s) = Some ?c1"
    by (rule step_client[OF Cons.prems(1,2,3) ne])
  have "readyState ?c1 = OPEN" using Cons.prems(3) by simp
  from Cons.IH[OF step_wf[OF Cons.prems(1)] c1 this rest]
  show ?case by (simp add: run_def)
qed

lemma event_messages_updates: "list_all is_update (event_messages e s)"
  by (cases e) (simp_all add: tick_messages_updates)

lemma run_messages_updates: "list_all is_update (run_messages evs s)"
  by (induction evs arbitrary: s) (simp_all add: event_messages_updates)

text \<open>
  C4. Take any well-formed state in which two sockets \<open>a\<close> and \<open>b\<close> are registered and open,
  whatever each has been sent before, and any list of events in which neither of them
  starts to close or closes. After these events both are still registered, and what has
  been added to the log of \<open>a\<close> is what has been added to the log of \<open>b\<close>: the same update
  messages, in the same order.
\<close>

theorem C4_same_update_sequence:
  assumes "wf_state s"
    and "client_of a s = Some ca" and "readyState ca = OPEN"
    and "client_of b s = Some cb" and "readyState cb = OPEN"
    and "list_all (\<lambda>e. \<not> closes a e \<and> \<not> closes b e) evs"
  shows "client_of a (run evs s) = Some (ca\<lparr>sent := sent ca @ run_messages evs s\<rparr>) \<and>
         client_of b (run evs s) = Some (cb\<lparr>sent := sent cb @ run_messages evs s\<rparr>) \<and>
         list_all is_update (run_messages evs s)"
proof -
  from assms(6) have "list_all (\<lambda>e. \<not> closes a e) evs" "list_all (\<lambda>e. \<not> closes b e) evs"
    by (simp_all add: list_all_iff)
  from run_client[OF assms(1,2,3) this(1)] run_client[OF assms(1,4,5) this(2)]
    run_messages_updates[of evs s]
  show ?thesis by simp
qed

theorem C4_same_update_sequence_witness:
  "map cid (clients two_viewers) = [0, 1] \<and>
   map readyState (clients two_viewers) = [OPEN, OPEN] \<and>
   map (\<lambda>c. length (sent c)) (clients two_viewers) = [5, 1] \<and>
   list_all (\<lambda>e. \<not> closes 0 e \<and> \<not> closes 1 e) later_events \<and>
   length (run_messages later_events two_viewers) = 8 \<and>
   (\<exists>ca cb.
      client_of 0 two_viewers = Some ca \<and> client_of 1 two_viewers = Some cb \<and>
      client_of 0 (run later_events two_viewers) =
        Some (ca\<lparr>sent := sent ca @ run_messages later_events two_viewers\<rparr>) \<and>
      client_of 1 (run later_events two_viewers) =
        Some (cb\<lparr>sent := sent cb @ run_messages later_events two_viewers\<rparr>))"
proof -
  have wf: "wf_state two_viewers"
    unfolding two_viewers_def by (rule run_wf[OF boot_wf])
  have f1: "map cid (clients two_viewers) = [0, 1]"
    unfolding shape_cid registry_two_viewers by simp
  have f2: "map readyState (clients two_viewers) = [OPEN, OPEN]"
    unfolding shape_readyState registry_two_viewers by simp
  have f3: "map (\<lambda>c. length (sent c)) (clients two_viewers) = [5, 1]"
    unfolding shape_length registry_two_viewers by simp
  have f4: "list_all (\<lambda>e. \<not> closes 0 e \<and> \<not> closes 1 e) later_events"
    by (simp add: later_events_def)
  have f5: "length (run_messages later_events two_viewers) = 8"
    by (rule messages_later_events)
  have "find (\<lambda>(i, r, l). i = 0) (shape two_viewers) = Some (0, OPEN, [False, True, True, True, True])"
    unfolding registry_two_viewers by simp
  from shape_client_of[OF this]
  obtain ca where a: "client_of 0 two_viewers = Some ca" "readyState ca = OPEN"
    by blast
  have "find (\<lambda>(i, r, l). i = 1) (shape two_viewers) = Some (1, OPEN, [False])"
    unfolding registry_two_viewers by simp
  from shape_client_of[OF this]
  obtain cb where b: "client_of 1 two_viewers = Some cb" "readyState cb = OPEN"
    by blast
  from C4_same_update_sequence[OF wf a b f4] a(1) b(1)
  have "\<exists>ca cb.
      client_of 0 two_viewers = Some ca \<and> client_of 1 two_viewers = Some cb \<and>
      client_of 0 (run later_events two_viewers) =
        Some (ca\<lparr>sent := sent ca @ run_messages later_events two_viewers\<rparr>) \<and>
      client_of 1 (run later_events two_viewers) =
        Some (cb\<lparr>sent := sent cb @ run_messages later_events two_viewers\<rparr>)"
    by blast
  with f1 f2 f3 f4 f5 show ?thesis by blast
qed

section \<open>The worked example\<close>

text \<open>
  The arithmetic of the example, in doubles: \<open>100 * (1 + 0.005)\<close> is not 100.5 but the
  double next below it; the two decimals it is rounded to give 100.5, and the change and the
  percentage, computed from the double before rounding, give 0.5 once rounded.
\<close>

lemma example_arithmetic:
  "dbl (100 * dbl (1 + dbl (5 / 1000))) = 201 / 2 - 1 / 2 ^ 46"
  "rounded2 (dbl (100 * dbl (1 + dbl (5 / 1000)))) = 201 / 2"
  "rounded2 (dbl (dbl (100 * dbl (1 + dbl (5 / 1000))) - 100)) = 1 / 2"
  "rounded2 (dbl (dbl (dbl (dbl (100 * dbl (1 + dbl (5 / 1000))) - 100) / 100) * 100)) = 1 / 2"
  by code_simp+

lemma example_draw: "fluctuation (3 / 4) = dbl (5 / 1000)"
  by code_simp

lemma idx_state_wf: "wf_state idx_state"
  by (simp add: wf_state_def idx_state_def boot_def initializeDemoData_def empty_state_def
      marketIndices_def)

lemma idx_state_lookup:
  "map_of (marketData idx_state) ''NIFTY'' =
     Some \<lparr>ident = 2, symbol = ''NIFTY'', name = ''Nifty 50'', price = 100,
           change = dbl (12540 / 100), changePercent = Num (dbl (58 / 100)), volume = 987654,
           timestamp = 0\<rparr>"
  by (simp add: idx_state_def boot_def initializeDemoData_def empty_state_def marketIndices_def
      index.extend_def quote.fields_def)

lemma idx_state_draw: "draw_index (marketData idx_state) ''NIFTY'' = 2"
  by (simp add: draw_index_def symbols_def idx_state_def boot_def initializeDemoData_def
      empty_state_def marketIndices_def)

lemma example_volume: "\<lfloor>dbl (3 / 4 * 500000)\<rfloor> + 500000 = (875000 :: int)"
  by code_simp

text \<open>
  C9. In a well-formed state where a tracked symbol has the stored price 100.00, a tick
  whose fluctuation factor for that symbol is the double 0.005 (the one \<^verbatim>\<open>Math.random()\<close>
  gives when it returns 0.75) stores for it the price 100.50, the change 0.50 and the
  percentage 0.50. A socket that connects before the tick is sent a
  snapshot with the quote of price 100.00 for the symbol, one that connects after the tick
  a snapshot with the quote of price 100.50.
\<close>

theorem C9_example_tick:
  assumes "wf_state s"
    and "map_of (marketData s) k = Some q"
    and "k \<in> set symbols"
    and "price q = 100"
    and "fluctuation (rnd (draw_index (marketData s) k)) = dbl (5 / 1000)"
  shows "\<exists>q'. map_of (marketData (updateMarketData rnd now s)) k = Some q' \<and>
              price q' = 1005 / 10 \<and> change q' = 5 / 10 \<and> changePercent q' = Num (5 / 10) \<and>
              (\<exists>c snap. clients (step Connect s) = clients s @ [c] \<and>
                        sent c = [initialData snap] \<and> map_of snap k = Some q) \<and>
              (\<exists>c snap. clients (step Connect (updateMarketData rnd now s)) =
                          clients (updateMarketData rnd now s) @ [c] \<and>
                        sent c = [initialData snap] \<and> map_of snap k = Some q')"
proof -
  let ?r = "rnd (draw_index (marketData s) k)"
  let ?q' = "updatedData q ?r (rnd (draw_index (marketData s) k + 1)) now"
  let ?s' = "updateMarketData rnd now s"
  have look: "map_of (marketData ?s') k = Some ?q'"
    by (rule tick_lookup[OF assms(2,3)])
  have P: "newPrice q ?r = dbl (100 * dbl (1 + dbl (5 / 1000)))"
    unfolding newPrice_def assms(4,5) by (rule refl)
  have C: "newChange q ?r = dbl (dbl (100 * dbl (1 + dbl (5 / 1000))) - 100)"
    unfolding newChange_def P assms(4) by (rule refl)
  have nz: "price q \<noteq> 0" using assms(4) by simp
  have Q: "newChangePercent q ?r =
      Num (dbl (dbl (dbl (dbl (100 * dbl (1 + dbl (5 / 1000))) - 100) / 100) * 100))"
    unfolding newChangePercent_Num[OF nz] C assms(4) by (rule refl)
  have p: "price ?q' = 1005 / 10"
    unfolding updatedData_fields P example_arithmetic(2) by simp
  have c: "change ?q' = 5 / 10"
    unfolding updatedData_fields C example_arithmetic(3) by simp
  have pc: "changePercent ?q' = Num (5 / 10)"
    unfolding updatedData_fields Q toFixed2_num.simps example_arithmetic(4) by simp
  have wf': "wf_state ?s'" using step_wf[OF assms(1), of "Tick rnd now"] by simp
  have before: "\<exists>c snap. clients (step Connect s) = clients s @ [c] \<and>
                        sent c = [initialData snap] \<and> map_of snap k = Some q"
    using assms(1,2) connect_clients[of s] snapshot_eq[of s]
    by (simp add: wf_state_def)
  have after: "\<exists>c snap. clients (step Connect ?s') = clients ?s' @ [c] \<and>
                        sent c = [initialData snap] \<and> map_of snap k = Some ?q'"
    using wf' look connect_clients[of ?s'] snapshot_eq[of ?s']
    by (simp add: wf_state_def)
  from look p c pc before after show ?thesis by blast
qed

theorem C9_example_tick_witness:
  "wf_state idx_state \<and>
   ''NIFTY'' \<in> set symbols \<and>
   map_of (marketData idx_state) ''NIFTY'' =
     Some \<lparr>ident = 2, symbol = ''NIFTY'', name = ''Nifty 50'', price = 100,
           change = dbl (12540 / 100), changePercent = Num (dbl (58 / 100)), volume = 987654,
           timestamp = 0\<rparr> \<and>
   fluctuation ((\<lambda>n. 3 / 4) (draw_index (marketData idx_state) ''NIFTY'')) = dbl (5 / 1000) \<and>
   map_of (marketData (updateMarketData (\<lambda>n. 3 / 4) 1 idx_state)) ''NIFTY'' =
     Some \<lparr>ident = 2, symbol = ''NIFTY'', name = ''Nifty 50'', price = 1005 / 10,
           change = 5 / 10, changePercent = Num (5 / 10), volume = 875000,
           timestamp = 1\<rparr> \<and>
   (\<exists>q'. map_of (marketData (updateMarketData (\<lambda>n. 3 / 4) 1 idx_state)) ''NIFTY'' = Some q' \<and>
         price q' = 1005 / 10 \<and> change q' = 5 / 10 \<and> changePercent q' = Num (5 / 10) \<and>
         (\<exists>c snap. clients (step Connect (updateMarketData (\<lambda>n. 3 / 4) 1 idx_state)) =
                     clients (updateMarketData (\<lambda>n. 3 / 4) 1 idx_state) @ [c] \<and>
                   sent c = [initialData snap] \<and> map_of snap ''NIFTY'' = Some q'))"
proof -
  let ?q = "\<lparr>ident = 2, symbol = ''NIFTY'', name = ''Nifty 50'', price = 100,
           change = dbl (12540 / 100), changePercent = Num (dbl (58 / 100)), volume = 987654,
           timestamp = 0\<rparr>"
  have h1: "wf_state idx_state" by (rule idx_state_wf)
  have h2: "map_of (marketData idx_state) ''NIFTY'' = Some ?q" by (rule idx_state_lookup)
  have h3: "''NIFTY'' \<in> set symbols" by (simp add: symbols_def)
  have h4: "price ?q = 100" by simp
  have h5: "fluctuation ((\<lambda>n. 3 / 4) (draw_index (marketData idx_state) ''NIFTY'')) = dbl (5 / 1000)"
    by (simp only: example_draw)
  have u: "updatedData ?q (3 / 4) (3 / 4) 1 =
     \<lparr>ident = 2, symbol = ''NIFTY'', name = ''Nifty 50'', price = 1005 / 10,
           change = 5 / 10, changePercent = Num (5 / 10), volume = 875000,
           timestamp = 1\<rparr>"
  proof -
    have P: "newPrice ?q (3 / 4) = dbl (100 * dbl (1 + dbl (5 / 1000)))"
      unfolding newPrice_def example_draw by simp
    have C: "newChange ?q (3 / 4) = dbl (dbl (100 * dbl (1 + dbl (5 / 1000))) - 100)"
      unfolding newChange_def P by simp
    have Q: "newChangePercent ?q (3 / 4) =
        Num (dbl (dbl (dbl (dbl (100 * dbl (1 + dbl (5 / 1000))) - 100) / 100) * 100))"
      unfolding newChangePercent_def C by simp
    show ?thesis
      unfolding updatedData_def P C Q toFixed2_num.simps example_arithmetic(2,3,4) example_volume
      by simp
  qed
  have h6: "map_of (marketData (updateMarketData (\<lambda>n. 3 / 4) 1 idx_state)) ''NIFTY'' =
     Some \<lparr>ident = 2, symbol = ''NIFTY'', name = ''Nifty 50'', price = 1005 / 10,
           change = 5 / 10, changePercent = Num (5 / 10), volume = 875000,
           timestamp = 1\<rparr>"
    using tick_lookup[OF h2 h3, of "\<lambda>n. 3 / 4" 1] by (simp only: u)
  from C9_example_tick[OF h1 h2 h3 h4 h5, of 1]
  have "\<exists>q'. map_of (marketData (updateMarketData (\<lambda>n. 3 / 4) 1 idx_state)) ''NIFTY'' = Some q' \<and>
         price q' = 1005 / 10 \<and> change q' = 5 / 10 \<and> changePercent q' = Num (5 / 10) \<and>
         (\<exists>c snap. clients (step Connect (updateMarketData (\<lambda>n. 3 / 4) 1 idx_state)) =
                     clients (updateMarketData (\<lambda>n. 3 / 4) 1 idx_state) @ [c] \<and>
                   sent c = [initialData snap] \<and> map_of snap ''NIFTY'' = Some q')"
    by blast
  with h1 h2 h3 h5 h6 show ?thesis by blast
qed

section \<open>Requests for an unknown symbol\<close>

lemma step_optionsData: "optionsData (step e s) = optionsData s"
  by (cases e) (simp_all add: on_connection_def ws_accept_def ws_closing_def ws_closed_def)

lemma run_optionsData: "optionsData (run evs s) = optionsData s"
  unfolding run_def by (induction evs arbitrary: s) (simp_all add: step_optionsData)

lemma boot_optionsData_keys: "map fst (optionsData (boot now)) = [''BANKNIFTY'']"
  by (simp add: boot_def initializeDemoData_def empty_state_def)

lemma map_of_None_keys: "k \<notin> set (map fst al) \<Longrightarrow> map_of al k = None"
  by (simp add: map_of_eq_None_iff)

lemma unknown_symbol_no_options:
  assumes "map_of (marketData (run evs (boot now))) k = None"
  shows "map_of (optionsData (run evs (boot now))) k = None"
proof -
  have "k \<notin> set (map fst (marketData (run evs (boot now))))"
    using assms by (simp add: map_of_eq_None_iff)
  then have "k \<notin> set symbols" by (simp add: run_keys boot_keys)
  then have "k \<notin> set (map fst (optionsData (boot now)))"
    unfolding boot_optionsData_keys by (simp add: symbols_def)
  then show ?thesis
    unfolding run_optionsData by (rule map_of_None_keys)
qed

text \<open>
  The claim C6 as the specification words it fails on the code: right after start-up, the
  symbol \<open>FOO\<close> is not in the quote table; the options-chain endpoint answers a request for
  it with status 200 and an empty list, and the analysis endpoint with status 500 and the
  text \<^verbatim>\<open>AI analysis failed\<close>.
\<close>

theorem C6_counterexample:
  "map_of (marketData (boot 0)) (toUpperCase ''foo'') = None \<and>
   get_options_chain toUpperCase (boot 0) ''foo'' ''25 Jan 2024'' =
     \<lparr>status = 200, body = Options []\<rparr> \<and>
   post_analyze_market toUpperCase (boot 0) ''foo'' (1 / 2) (1 / 2) (1 / 2) 1 =
     \<lparr>status = 500, body = ErrorObject ''AI analysis failed''\<rparr>"
proof -
  have u: "toUpperCase ''foo'' = ''FOO''" by code_simp
  have m: "map_of (marketData (boot 0)) ''FOO'' = None"
    by (rule map_of_None_keys) (simp add: boot_keys symbols_def)
  have "map_of (marketData (run [] (boot 0))) ''FOO'' = None"
    using m by (simp add: run_def)
  from unknown_symbol_no_options[OF this]
  have o: "map_of (optionsData (boot 0)) ''FOO'' = None" by (simp add: run_def)
  show ?thesis
    unfolding u using m o
    by (simp add: get_options_chain_def post_analyze_market_def analyzeMarketWithAI_def u)
qed

text \<open>
  C6, as the code has it. At every moment of every run, whatever \<^verbatim>\<open>toUpperCase\<close> does to the
  text of the request, for a request whose symbol, in upper case, is not in the quote
  table: the market-data lookup endpoint answers with status 404 and
  \<^verbatim>\<open>Market data not found\<close>; the options-chain endpoint answers with status 200 and an empty
  list; and \<^verbatim>\<open>analyzeMarketWithAI\<close> raises the error \<^verbatim>\<open>Market data not found\<close> before it
  draws any random number.
\<close>

theorem C6_unknown_symbol:
  assumes "map_of (marketData (run evs (boot now))) (upper param) = None"
  shows "get_market_index upper (run evs (boot now)) param =
           \<lparr>status = 404, body = ErrorObject ''Market data not found''\<rparr> \<and>
         get_options_chain upper (run evs (boot now)) param expiry =
           \<lparr>status = 200, body = Options []\<rparr> \<and>
         analyzeMarketWithAI (marketData (run evs (boot now))) (upper param) r1 r2 r3 t =
           Inl (Error ''Market data not found'')"
  using assms unknown_symbol_no_options[OF assms]
  by (simp add: get_market_index_def get_options_chain_def analyzeMarketWithAI_def)

theorem C6_unknown_symbol_witness:
  "map_of (marketData (run [Connect, Tick (\<lambda>n. 17 / 32) 1] (boot 0))) (toUpperCase ''foo'') = None \<and>
   get_market_index toUpperCase (run [Connect, Tick (\<lambda>n. 17 / 32) 1] (boot 0)) ''foo'' =
     \<lparr>status = 404, body = ErrorObject ''Market data not found''\<rparr> \<and>
   get_options_chain toUpperCase (run [Connect, Tick (\<lambda>n. 17 / 32) 1] (boot 0)) ''foo''
       ''25 Jan 2024'' =
     \<lparr>status = 200, body = Options []\<rparr> \<and>
   analyzeMarketWithAI (marketData (run [Connect, Tick (\<lambda>n. 17 / 32) 1] (boot 0)))
       (toUpperCase ''foo'') (1 / 2) (1 / 2) (1 / 2) 2 =
     Inl (Error ''Market data not found'')"
proof -
  have u: "toUpperCase ''foo'' = ''FOO''" by code_simp
  have h: "map_of (marketData (run [Connect, Tick (\<lambda>n. 17 / 32) 1] (boot 0)))
             (toUpperCase ''foo'') = None"
    unfolding u by (rule map_of_None_keys) (simp add: run_boot_keys symbols_def)
  from C6_unknown_symbol[of "[Connect, Tick (\<lambda>n. 17 / 32) 1]" 0 toUpperCase "''foo''", OF h] h
  show ?thesis by blast
qed

text \<open>
  The \<^verbatim>\<open>catch\<close> block of the analysis endpoint turns the error of \<^verbatim>\<open>analyzeMarketWithAI\<close>
  into status 500.
\<close>

lemma post_analyze_market_unknown:
  "map_of (marketData s) (upper param) = None \<Longrightarrow>
   post_analyze_market upper s param r1 r2 r3 t =
     \<lparr>status = 500, body = ErrorObject ''AI analysis failed''\<rparr>"
  by (simp add: post_analyze_market_def analyzeMarketWithAI_def)

text \<open>A request for a symbol of the table, in any case of letters, is answered with its quote.\<close>

lemma get_market_index_known:
  "map_of (marketData s) (upper param) = Some q \<Longrightarrow>
   get_market_index upper s param = \<lparr>status = 200, body = Quote q\<rparr>"
  by (simp add: get_market_index_def)

end
